theory Spec2Isabelle
  imports Complex_Main
begin

section \<open>Data model\<close>

text \<open>
  The trading core of the application: \<open>TradeModel\<close> (src/core/models.py),
  \<open>TradeController\<close> (src/core/controllers.py) and \<open>find_peaks_and_valleys\<close>
  (src/core/utils.py).

  Timestamps are the 'YYYY-MM-DD HH:MM' values of the \<open>Time\<close> column; only their order
  and equality are used, so they are numbered (minutes since an epoch). A timestamp is
  always truthy in Python, \<open>None\<close> is not: \<open>time option\<close> carries that distinction.
  Prices are Python floats; they are modelled as real numbers, so rounding is not part
  of the model.
\<close>

type_synonym time = nat

datatype error = KeyError | IndexError | ValueError | AttributeError

datatype trade_type = buy | sell

datatype trade_status = status_open | status_closed

text \<open>
  One row of \<open>current_trade\<close> or of \<open>trades\<close>. The exit columns are absent (NaN) until
  \<open>close_trade\<close> writes them.
\<close>

record trade =
  type :: trade_type
  entry_date :: "time option"
  entry_price :: real
  status :: trade_status
  exit_date :: "time option"
  exit_price :: "real option"
  profit :: "real option"

text \<open>
  A pandas DataFrame with the default RangeIndex \<open>0 .. nrows - 1\<close> (the caller in
  gui/widgets/plot_view.py passes \<open>tail(50).copy().reset_index(drop=True)\<close>), so a row's
  label is its position. A column may be absent. A \<open>Signal\<close> cell is a float or NaN
  (\<open>None\<close>). The remaining columns (Open, High, Low, Volume, indicators) are kept by name.
\<close>

record frame =
  nrows :: nat
  Time :: "time list option"
  Close :: "real list option"
  Signal :: "real option list option"
  others :: "(string \<times> real list) list"

definition wf_frame :: "frame \<Rightarrow> bool" where
  "wf_frame df \<longleftrightarrow>
     (case Time df of None \<Rightarrow> True | Some ts \<Rightarrow> length ts = nrows df) \<and>
     (case Close df of None \<Rightarrow> True | Some cs \<Rightarrow> length cs = nrows df) \<and>
     (case Signal df of None \<Rightarrow> True | Some ss \<Rightarrow> length ss = nrows df) \<and>
     list_all (\<lambda>(name, col). length col = nrows df) (others df)"

text \<open>\<open>DataFrame.empty\<close>: an axis of length zero.\<close>

definition empty :: "frame \<Rightarrow> bool" where
  "empty df \<longleftrightarrow>
     nrows df = 0 \<or> (Time df = None \<and> Close df = None \<and> Signal df = None \<and> others df = [])"

text \<open>\<open>TradeModel\<close>: the ledger \<open>trades\<close>, the live slot \<open>current_trade\<close> (a DataFrame
  of rows), the clock \<open>current_date\<close> and the price data.\<close>

record model =
  trades :: "trade list"
  current_trade :: "trade list"
  current_date :: "time option"
  data :: "frame option"

definition init_model :: model where
  "init_model = \<lparr>trades = [], current_trade = [], current_date = None, data = None\<rparr>"

section \<open>TradeModel and TradeController\<close>

definition set_data :: "model \<Rightarrow> frame \<Rightarrow> model" where
  "set_data m df = m\<lparr>data := Some df\<rparr>"

definition set_current_date :: "model \<Rightarrow> time \<Rightarrow> model" where
  "set_current_date m date = m\<lparr>current_date := Some date\<rparr>"

text \<open>
  \<open>get_close_price\<close>: the Close of the first row whose Time equals \<open>date\<close>. A missing
  column (KeyError) and no matching row (IndexError) are caught and give \<open>None\<close>; with
  \<open>data\<close> still \<open>None\<close> the attribute access raises, which is not caught here.
\<close>

definition get_close_price :: "model \<Rightarrow> time option \<Rightarrow> error + real option" where
  "get_close_price m date =
     (case data m of
        None \<Rightarrow> Inl AttributeError
      | Some d \<Rightarrow>
          (case Time d of
             None \<Rightarrow> Inr None
           | Some ts \<Rightarrow>
               (case Close d of
                  None \<Rightarrow> Inr None
                | Some cs \<Rightarrow>
                    (case filter (\<lambda>(t, c). Some t = date) (zip ts cs) of
                       [] \<Rightarrow> Inr None
                     | (t, c) # _ \<Rightarrow> Inr (Some c)))))"

text \<open>
  \<open>close_trade\<close>: every exception (also the ValueError raised for a missing price) is
  caught by the method itself, before anything was written.
\<close>

definition close_trade :: "model \<Rightarrow> model" where
  "close_trade m =
     (if current_trade m \<noteq> [] \<and> status (hd (current_trade m)) = status_open then
        (case get_close_price m (current_date m) of
           Inl e \<Rightarrow> m
         | Inr None \<Rightarrow> m
         | Inr (Some exit_price_v) \<Rightarrow>
             (let t = hd (current_trade m);
                  profit_v = (if type t = buy then exit_price_v - entry_price t
                              else entry_price t - exit_price_v);
                  closed_rows = (current_trade m)[0 := t\<lparr>status := status_closed,
                      exit_date := current_date m, exit_price := Some exit_price_v,
                      profit := Some profit_v\<rparr>]
              in m\<lparr>trades := trades m @ closed_rows, current_trade := []\<rparr>))
      else m)"

definition new_trade :: "trade_type \<Rightarrow> model \<Rightarrow> real \<Rightarrow> trade" where
  "new_trade tt m entry_price_v =
     \<lparr>type = tt, entry_date = current_date m, entry_price = entry_price_v,
      status = status_open, exit_date = None, exit_price = None, profit = None\<rparr>"

definition open_trade :: "trade_type \<Rightarrow> model \<Rightarrow> model" where
  "open_trade tt m =
     (let m1 = (if current_trade m \<noteq> [] then close_trade m else m)
      in case get_close_price m1 (current_date m1) of
           Inl e \<Rightarrow> m1
         | Inr None \<Rightarrow> m1
         | Inr (Some entry_price_v) \<Rightarrow> m1\<lparr>current_trade := [new_trade tt m1 entry_price_v]\<rparr>)"

text \<open>\<open>buy_trade\<close> and \<open>sell_trade\<close> are the same method up to the 'type' written.\<close>

definition buy_trade :: "model \<Rightarrow> model" where
  "buy_trade m = open_trade buy m"

definition sell_trade :: "model \<Rightarrow> model" where
  "sell_trade m = open_trade sell m"

section \<open>The signal detector\<close>

text \<open>
  \<open>find_peaks_and_valleys\<close> calls two library routines, modelled here after their
  sources: \<open>MinMaxScaler.fit_transform\<close> of scikit-learn and \<open>find_peaks\<close> of
  scipy.signal (\<open>_local_maxima_1d\<close>, \<open>_select_by_peak_distance\<close>,
  \<open>_peak_prominences\<close>).
\<close>

text \<open>
  \<open>fit_transform\<close> on one feature with range (0, 1): input validation rejects an array
  with no sample (ValueError); a constant column is scaled by 1.
\<close>

definition fit_transform :: "real list \<Rightarrow> error + real list" where
  "fit_transform X =
     (if X = [] then Inl ValueError
      else
        (let data_min = Min (set X);
             data_max = Max (set X);
             data_range = data_max - data_min;
             scale = 1 / (if data_range = 0 then 1 else data_range);
             min_v = 0 - data_min * scale
         in Inr (map (\<lambda>v. v * scale + min_v) X)))"

text \<open>
  \<open>_local_maxima_1d\<close>: the inner loop looks ahead for the next sample unequal to
  \<open>x[i]\<close>; the outer loop records the midpoint and the edges of every plateau that is
  higher than both neighbours. \<open>i_max\<close> is \<open>len(x) - 1\<close>; for an empty \<open>x\<close> neither
  loop runs.
\<close>

function look_ahead :: "real list \<Rightarrow> nat \<Rightarrow> nat \<Rightarrow> nat \<Rightarrow> nat" where
  "look_ahead x i i_max i_ahead =
     (if i_ahead < i_max \<and> x ! i_ahead = x ! i
      then look_ahead x i i_max (Suc i_ahead) else i_ahead)"
  by pat_completeness auto
termination
  by (relation "measure (\<lambda>(x, i, i_max, i_ahead). i_max - i_ahead)") auto

declare look_ahead.simps [simp del]

lemma look_ahead_ge: "i_ahead \<le> look_ahead x i i_max i_ahead"
proof (induction x i i_max i_ahead rule: look_ahead.induct)
  case (1 x i i_max i_ahead)
  show ?case
  proof (cases "i_ahead < i_max \<and> x ! i_ahead = x ! i")
    case True
    with 1 have "Suc i_ahead \<le> look_ahead x i i_max (Suc i_ahead)" by simp
    with True show ?thesis by (subst look_ahead.simps) simp
  next
    case False
    then show ?thesis by (subst look_ahead.simps) auto
  qed
qed

function local_maxima_loop :: "real list \<Rightarrow> nat \<Rightarrow> nat \<Rightarrow> (nat \<times> nat \<times> nat) list" where
  "local_maxima_loop x i_max i =
     (if i < i_max then
        (if x ! (i - 1) < x ! i then
           (if x ! (look_ahead x i i_max (i + 1)) < x ! i then
              ((i + (look_ahead x i i_max (i + 1) - 1)) div 2, i,
                 look_ahead x i i_max (i + 1) - 1)
                # local_maxima_loop x i_max (look_ahead x i i_max (i + 1) + 1)
            else local_maxima_loop x i_max (i + 1))
         else local_maxima_loop x i_max (i + 1))
      else [])"
  by pat_completeness auto
termination
proof (relation "measure (\<lambda>(x, i_max, i). i_max - i)")
  fix x :: "real list" and i_max i :: nat
  assume "i < i_max"
  moreover have "i + 1 \<le> look_ahead x i i_max (i + 1)" by (rule look_ahead_ge)
  ultimately show "((x, i_max, look_ahead x i i_max (i + 1) + 1), (x, i_max, i))
      \<in> measure (\<lambda>(x, i_max, i). i_max - i)"
    by simp
qed auto

declare local_maxima_loop.simps [simp del]

text \<open>The triples are (midpoint, left edge, right edge).\<close>

definition local_maxima_1d :: "real list \<Rightarrow> (nat \<times> nat \<times> nat) list" where
  "local_maxima_1d x = local_maxima_loop x (length x - 1) 1"

text \<open>
  \<open>_select_by_peak_distance\<close>: peaks are visited from the highest priority down; a peak
  still kept clears the flags of its neighbours closer than \<open>distance\<close>. The counter
  of the first loop runs down to -1, so it is kept as \<open>k + 1\<close>. \<open>argsort\<close> orders
  equal priorities by position.
\<close>

fun flag_earlier :: "nat list \<Rightarrow> nat \<Rightarrow> int \<Rightarrow> nat \<Rightarrow> bool list \<Rightarrow> bool list" where
  "flag_earlier peaks j distance 0 keep = keep"
| "flag_earlier peaks j distance (Suc k) keep =
     (if int (peaks ! j) - int (peaks ! k) < distance
      then flag_earlier peaks j distance k (keep[k := False]) else keep)"

function flag_later :: "nat list \<Rightarrow> nat \<Rightarrow> int \<Rightarrow> nat \<Rightarrow> bool list \<Rightarrow> bool list" where
  "flag_later peaks j distance k keep =
     (if k < length peaks \<and> int (peaks ! k) - int (peaks ! j) < distance
      then flag_later peaks j distance (Suc k) (keep[k := False]) else keep)"
  by pat_completeness auto
termination
  by (relation "measure (\<lambda>(peaks, j, distance, k, keep). length peaks - k)") auto

declare flag_later.simps [simp del]

definition argsort :: "real list \<Rightarrow> nat list" where
  "argsort priority = sort_key (\<lambda>i. priority ! i) [0..<length priority]"

definition select_step :: "nat list \<Rightarrow> int \<Rightarrow> nat \<Rightarrow> bool list \<Rightarrow> bool list" where
  "select_step peaks distance j keep =
     (if \<not> keep ! j then keep
      else flag_later peaks j distance (j + 1) (flag_earlier peaks j distance j keep))"

definition select_by_peak_distance :: "nat list \<Rightarrow> real list \<Rightarrow> int \<Rightarrow> bool list" where
  "select_by_peak_distance peaks priority distance =
     fold (select_step peaks distance) (rev (argsort priority))
       (replicate (length peaks) True)"

text \<open>
  \<open>_peak_prominences\<close> with no window length: the lowest sample on each side before a
  higher one is met; the prominence is the height above the higher of the two.
\<close>

fun left_min_scan :: "real list \<Rightarrow> nat \<Rightarrow> nat \<Rightarrow> real \<Rightarrow> real" where
  "left_min_scan x peak 0 left_min = left_min"
| "left_min_scan x peak (Suc i) left_min =
     (if x ! i \<le> x ! peak
      then left_min_scan x peak i (if x ! i < left_min then x ! i else left_min)
      else left_min)"

function right_min_scan :: "real list \<Rightarrow> nat \<Rightarrow> nat \<Rightarrow> real \<Rightarrow> real" where
  "right_min_scan x peak i right_min =
     (if i < length x \<and> x ! i \<le> x ! peak
      then right_min_scan x peak (Suc i) (if x ! i < right_min then x ! i else right_min)
      else right_min)"
  by pat_completeness auto
termination
  by (relation "measure (\<lambda>(x, peak, i, right_min). length x - i)") auto

declare right_min_scan.simps [simp del]

definition peak_prominence :: "real list \<Rightarrow> nat \<Rightarrow> real" where
  "peak_prominence x peak =
     x ! peak - max (left_min_scan x peak (Suc peak) (x ! peak))
                    (right_min_scan x peak peak (x ! peak))"

text \<open>
  \<open>find_peaks(x, distance=..., prominence=...)\<close>: local maxima, then the distance
  condition, then the prominence condition. A distance below 1 is a ValueError.
\<close>

definition find_peaks :: "real list \<Rightarrow> int \<Rightarrow> real \<Rightarrow> error + nat list" where
  "find_peaks x distance prominence =
     (if distance < 1 then Inl ValueError
      else
        (let peaks = map fst (local_maxima_1d x);
             keep = select_by_peak_distance peaks (map (\<lambda>p. x ! p) peaks) distance;
             peaks = map fst (filter snd (zip peaks keep));
             prominences = map (peak_prominence x) peaks;
             peaks = map fst (filter (\<lambda>(p, pr). prominence \<le> pr) (zip peaks prominences))
         in Inr peaks))"

text \<open>\<open>signal[indices] = v\<close> on a numpy array.\<close>

definition assign :: "real list \<Rightarrow> nat list \<Rightarrow> real \<Rightarrow> real list" where
  "assign signal indices v = fold (\<lambda>i s. s[i := v]) indices signal"

text \<open>Lines 96 to 98: all neutral (1), then peaks (2), then valleys (0).\<close>

definition signal_array :: "nat \<Rightarrow> nat list \<Rightarrow> nat list \<Rightarrow> real list" where
  "signal_array n peak_indices valley_indices =
     assign (assign (replicate n 1) peak_indices 2) valley_indices 0"

text \<open>The return value: the last signal alone when \<open>rolling\<close>, the whole array otherwise.\<close>

datatype signals = Scalar real | Array "real list"

text \<open>
  \<open>find_peaks_and_valleys\<close>. The function has no exception handler: a missing column
  (KeyError), the scaler's ValueError and \<open>signal[-1]\<close> on an empty array (IndexError)
  leave it as exceptions.
\<close>

definition find_peaks_and_valleys :: "frame \<Rightarrow> int \<Rightarrow> real \<Rightarrow> bool \<Rightarrow> error + signals" where
  "find_peaks_and_valleys df_window distance prominence rolling =
     (case Close df_window of
        None \<Rightarrow> Inl KeyError
      | Some close \<Rightarrow>
     (case Time df_window of
        None \<Rightarrow> Inl KeyError
      | Some time \<Rightarrow>
     (case fit_transform close of
        Inl e \<Rightarrow> Inl e
      | Inr close_scaled \<Rightarrow>
     (case find_peaks close_scaled distance prominence of
        Inl e \<Rightarrow> Inl e
      | Inr peak_indices \<Rightarrow>
     (case find_peaks (map uminus close_scaled) distance prominence of
        Inl e \<Rightarrow> Inl e
      | Inr valley_indices \<Rightarrow>
          (let signal = signal_array (length close_scaled) peak_indices valley_indices
           in if rolling then (if signal = [] then Inl IndexError else Inr (Scalar (last signal)))
              else Inr (Array signal)))))))"

section \<open>auto_trade\<close>

text \<open>Line 112: the write goes to the row labelled \<open>len(df) - 1\<close>; a missing Signal
  column is created with NaN in the other rows.\<close>

definition set_last_signal :: "frame \<Rightarrow> real \<Rightarrow> frame" where
  "set_last_signal df current_signal =
     df\<lparr>Signal := Some ((case Signal df of
                            None \<Rightarrow> replicate (nrows df) None
                          | Some ss \<Rightarrow> ss)[nrows df - 1 := Some current_signal])\<rparr>"

text \<open>Line 114: the entry date of the row in the live slot, if there is one.\<close>

definition latest_trade_date :: "model \<Rightarrow> time option" where
  "latest_trade_date m =
     (if current_trade m \<noteq> [] then entry_date (last (current_trade m)) else None)"

text \<open>Line 116: the labels of the rows kept by the time filter.\<close>

definition signals_since_last_trade :: "time list \<Rightarrow> time option \<Rightarrow> time \<Rightarrow> nat list" where
  "signals_since_last_trade time_col ltd current_date_v =
     (case ltd of
        Some d \<Rightarrow> filter (\<lambda>i. time_col ! i > d \<and> time_col ! i \<le> current_date_v) [0..<length time_col]
      | None \<Rightarrow> filter (\<lambda>i. time_col ! i \<le> current_date_v) [0..<length time_col])"

text \<open>Line 117: of those, the rows whose Signal is 0.0 or 2.0.\<close>

definition valid_signals :: "real option list \<Rightarrow> nat list \<Rightarrow> nat list" where
  "valid_signals signal_col rows = filter (\<lambda>i. signal_col ! i = Some 0 \<or> signal_col ! i = Some 2) rows"

text \<open>Lines 126 to 142: the decision on the selected signal.\<close>

definition act_on_signal :: "model \<Rightarrow> real option \<Rightarrow> bool \<Rightarrow> model" where
  "act_on_signal m new_signal recent_signal_condition =
     (if new_signal = None \<or> new_signal = Some 1 then m
      else if current_trade m \<noteq> [] then
        (let current_trade_type = type (last (current_trade m))
         in if (new_signal = Some 0 \<and> current_trade_type = buy) \<or>
               (new_signal = Some 2 \<and> current_trade_type = sell) then m
            else
              (let m1 = close_trade m
               in if new_signal = Some 0 \<and> recent_signal_condition then buy_trade m1
                  else if new_signal = Some 2 \<and> recent_signal_condition then sell_trade m1
                  else m1))
      else if new_signal = Some 0 \<and> recent_signal_condition then buy_trade m
      else if new_signal = Some 2 \<and> recent_signal_condition then sell_trade m
      else m)"

text \<open>
  Lines 113 to 122: \<open>current_date\<close> is the Time of the last row; the candidates are
  filtered from the window after the write of line 112; the result is the label and the
  Signal of the last candidate, or \<open>None\<close> when \<open>valid_signals\<close> is empty.
\<close>

definition select_signal :: "model \<Rightarrow> frame \<Rightarrow> error + (nat \<times> real option) option" where
  "select_signal m df =
     (case Time df of
        None \<Rightarrow> Inl KeyError
      | Some time_col \<Rightarrow>
          (case Signal df of
             None \<Rightarrow> Inl KeyError
           | Some signal_col \<Rightarrow>
               if time_col = [] then Inl IndexError
               else
                 (let current_date_v = last time_col;
                      valid = valid_signals signal_col
                        (signals_since_last_trade time_col (latest_trade_date m)
                           current_date_v)
                  in if valid = [] then Inr None
                     else Inr (Some (last valid, signal_col ! last valid)))))"

text \<open>
  \<open>auto_trade\<close> returns the model and the caller's DataFrame as the call leaves them.
  Any exception is caught by the method: the state reached so far stays. The argument
  \<open>current_datetime\<close> is not read. The detector is called with \<open>rolling=True\<close>, so an
  array is never returned here.
\<close>

definition auto_trade ::
  "model \<Rightarrow> frame \<Rightarrow> time \<Rightarrow> int \<Rightarrow> int \<Rightarrow> real \<Rightarrow> model \<times> frame" where
  "auto_trade m0 df0 current_datetime furthest_index peaks_distance peaks_prominence =
     (let m = set_data m0 df0
      in if empty df0 then (m, df0)
         else
           (case find_peaks_and_valleys df0 peaks_distance peaks_prominence True of
              Inl e \<Rightarrow> (m, df0)
            | Inr (Array signal) \<Rightarrow> (m, df0)
            | Inr (Scalar current_signal) \<Rightarrow>
                (let df = set_last_signal df0 current_signal
                 in case select_signal m df of
                      Inl e \<Rightarrow> (m, df)
                    | Inr None \<Rightarrow> (m, df)
                    | Inr (Some (signal_index, new_signal)) \<Rightarrow>
                        (let index_difference = int (nrows df - 1) - int signal_index;
                             recent_signal_condition = (index_difference \<le> furthest_index)
                         in (act_on_signal m new_signal recent_signal_condition, df)))))"

section \<open>States and invariants\<close>

text \<open>The positions with status open, in the live slot and in the ledger.\<close>

definition open_positions :: "model \<Rightarrow> nat" where
  "open_positions m =
     length (filter (\<lambda>t. status t = status_open) (current_trade m @ trades m))"

text \<open>The live slot holds at most one row and every ledger row is closed.\<close>

definition single_slot :: "model \<Rightarrow> bool" where
  "single_slot m \<longleftrightarrow>
     length (current_trade m) \<le> 1 \<and> list_all (\<lambda>t. status t = status_closed) (trades m)"

text \<open>The states the controller can be in: any sequence of its methods from
  the initial model.\<close>

inductive reachable :: "model \<Rightarrow> bool" where
  init: "reachable init_model"
| set_current_date: "reachable m \<Longrightarrow> reachable (set_current_date m date)"
| set_data: "reachable m \<Longrightarrow> reachable (set_data m df)"
| buy_trade: "reachable m \<Longrightarrow> reachable (buy_trade m)"
| sell_trade: "reachable m \<Longrightarrow> reachable (sell_trade m)"
| close_trade: "reachable m \<Longrightarrow> reachable (close_trade m)"
| auto_trade: "reachable m \<Longrightarrow>
     reachable (fst (auto_trade m df current_datetime furthest_index peaks_distance
        peaks_prominence))"

text \<open>
  What \<open>_local_maxima_1d\<close> records: a plateau \<open>l .. r\<close> of equal samples, strictly
  higher than the sample before it and the sample after it.
\<close>

definition plateau_peak :: "real list \<Rightarrow> nat \<Rightarrow> nat \<Rightarrow> bool" where
  "plateau_peak x l r \<longleftrightarrow>
     1 \<le> l \<and> l \<le> r \<and> r + 1 < length x \<and> x ! (l - 1) < x ! l \<and>
     (\<forall>k. l \<le> k \<and> k \<le> r \<longrightarrow> x ! k = x ! l) \<and> x ! (r + 1) < x ! l"

text \<open>The value of a Signal cell; a cell of a missing column reads as NaN.\<close>

definition signal_cell :: "frame \<Rightarrow> nat \<Rightarrow> real option" where
  "signal_cell df i =
     (case Signal df of
        None \<Rightarrow> None
      | Some signal_col \<Rightarrow> if i < length signal_col then signal_col ! i else None)"

subsection \<open>Example states\<close>

text \<open>Three bars; a Long opened at 1.2500 with the clock then at the 1.2550 bar, and a
  Short opened at 1.2500 with the clock then at the 1.2480 bar.\<close>

definition example_bars :: frame where
  "example_bars = \<lparr>nrows = 3, Time = Some [1, 2, 3],
     Close = Some [125 / 100, 1255 / 1000, 1248 / 1000], Signal = None, others = []\<rparr>"

definition long_example :: model where
  "long_example =
     set_current_date (buy_trade (set_current_date (set_data init_model example_bars) 1)) 2"

definition short_example :: model where
  "short_example =
     set_current_date (sell_trade (set_current_date (set_data init_model example_bars) 1)) 3"

text \<open>A window without a Close column, and a window with no rows.\<close>

definition no_close_window :: frame where
  "no_close_window = \<lparr>nrows = 2, Time = Some [1, 2], Close = None, Signal = None,
     others = [(''Open'', [1, 2])]\<rparr>"

definition empty_window :: frame where
  "empty_window = \<lparr>nrows = 0, Time = Some [], Close = Some [], Signal = Some [],
     others = []\<rparr>"

text \<open>
  Four bars at times 1 to 4 with a given Signal column: a window whose only signal is a
  Sell on the second bar, and one whose only signal is a Buy on the first bar. A Long
  entered on the first bar with the clock then at the fourth, and the same state after
  \<open>close_trade\<close>.
\<close>

definition four_bars :: "real option list \<Rightarrow> frame" where
  "four_bars signal_col = \<lparr>nrows = 4, Time = Some [1, 2, 3, 4],
     Close = Some [125 / 100, 1255 / 1000, 1248 / 1000, 126 / 100],
     Signal = Some signal_col, others = [(''Open'', [1, 1, 1, 1])]\<rparr>"

definition sell_window :: frame where
  "sell_window = four_bars [Some 1, Some 2, Some 1, Some 1]"

definition buy_window :: frame where
  "buy_window = four_bars [Some 0, Some 1, Some 1, Some 1]"

definition long_at_1 :: model where
  "long_at_1 = set_current_date (buy_trade (set_current_date
     (set_data init_model buy_window) 1)) 4"

definition closed_long :: model where
  "closed_long = close_trade long_at_1"

section \<open>Properties of the trade controller\<close>

lemma get_close_price_cong:
  "data m' = data m \<Longrightarrow> get_close_price m' d = get_close_price m d"
  by (simp add: get_close_price_def)

lemma close_trade_data [simp]: "data (close_trade m) = data m"
  by (simp add: close_trade_def Let_def split: sum.splits option.splits)

lemma close_trade_current_date [simp]: "current_date (close_trade m) = current_date m"
  by (simp add: close_trade_def Let_def split: sum.splits option.splits)

lemma get_close_price_close_trade [simp]:
  "get_close_price (close_trade m) d = get_close_price m d"
  by (rule get_close_price_cong) simp

lemma close_trade_cases:
  "close_trade m = m \<or>
   (\<exists>xp. current_trade m \<noteq> [] \<and> status (hd (current_trade m)) = status_open \<and>
      get_close_price m (current_date m) = Inr (Some xp) \<and>
      close_trade m = m\<lparr>trades := trades m @
         (current_trade m)[0 := (hd (current_trade m))\<lparr>status := status_closed,
            exit_date := current_date m, exit_price := Some xp,
            profit := Some (if type (hd (current_trade m)) = buy
               then xp - entry_price (hd (current_trade m))
               else entry_price (hd (current_trade m)) - xp)\<rparr>],
         current_trade := []\<rparr>)"
  by (simp add: close_trade_def Let_def split: sum.splits option.splits)

lemma close_trade_empty: "current_trade m = [] \<Longrightarrow> close_trade m = m"
  by (simp add: close_trade_def)

lemma close_trade_fail:
  "(\<forall>xp. get_close_price m (current_date m) \<noteq> Inr (Some xp)) \<Longrightarrow> close_trade m = m"
  by (auto simp add: close_trade_def Let_def split: sum.splits option.splits)

lemma open_trade_cases:
  "open_trade tt m = close_trade m \<and> (\<forall>xp. get_close_price m (current_date m) \<noteq> Inr (Some xp)) \<or>
   (\<exists>p. get_close_price m (current_date m) = Inr (Some p) \<and>
      open_trade tt m = (close_trade m)\<lparr>current_trade := [new_trade tt m p]\<rparr>)"
proof (cases "get_close_price m (current_date m)")
  case (Inl e)
  then show ?thesis by (simp add: open_trade_def Let_def close_trade_empty)
next
  case (Inr r)
  show ?thesis
  proof (cases r)
    case None
    with Inr show ?thesis by (simp add: open_trade_def Let_def close_trade_empty)
  next
    case (Some p)
    with Inr show ?thesis
      by (simp add: open_trade_def Let_def new_trade_def close_trade_empty)
  qed
qed

lemma act_on_signal_cases:
  "act_on_signal m s r \<in> {m, close_trade m, buy_trade (close_trade m),
      sell_trade (close_trade m), buy_trade m, sell_trade m}"
  by (simp add: act_on_signal_def Let_def)

lemma auto_trade_cases:
  "fst (auto_trade m df cd fi pd pp) = set_data m df \<or>
   (\<exists>s r. fst (auto_trade m df cd fi pd pp) = act_on_signal (set_data m df) s r)"
  by (auto simp add: auto_trade_def Let_def split: sum.splits signals.splits option.splits)

lemma single_slot_close: "single_slot m \<Longrightarrow> single_slot (close_trade m)"
proof -
  assume a: "single_slot m"
  from close_trade_cases [of m] show ?thesis
  proof
    assume "close_trade m = m" with a show ?thesis by simp
  next
    assume "\<exists>xp. current_trade m \<noteq> [] \<and> status (hd (current_trade m)) = status_open \<and>
      get_close_price m (current_date m) = Inr (Some xp) \<and>
      close_trade m = m\<lparr>trades := trades m @
         (current_trade m)[0 := (hd (current_trade m))\<lparr>status := status_closed,
            exit_date := current_date m, exit_price := Some xp,
            profit := Some (if type (hd (current_trade m)) = buy
               then xp - entry_price (hd (current_trade m))
               else entry_price (hd (current_trade m)) - xp)\<rparr>],
         current_trade := []\<rparr>"
    then obtain xp where ne: "current_trade m \<noteq> []"
      and eq: "close_trade m = m\<lparr>trades := trades m @
         (current_trade m)[0 := (hd (current_trade m))\<lparr>status := status_closed,
            exit_date := current_date m, exit_price := Some xp,
            profit := Some (if type (hd (current_trade m)) = buy
               then xp - entry_price (hd (current_trade m))
               else entry_price (hd (current_trade m)) - xp)\<rparr>],
         current_trade := []\<rparr>" by blast
    from a ne obtain t where ct: "current_trade m = [t]"
      by (cases "current_trade m") (auto simp add: single_slot_def)
    from a show ?thesis by (simp add: eq ct single_slot_def)
  qed
qed

lemma single_slot_open: "single_slot m \<Longrightarrow> single_slot (open_trade tt m)"
  using open_trade_cases [of tt m] single_slot_close [of m]
  by (auto simp add: single_slot_def)

lemma single_slot_act:
  assumes "single_slot m"
  shows "single_slot (act_on_signal m s r)"
proof -
  have c: "single_slot (close_trade m)" using assms by (rule single_slot_close)
  have "single_slot (buy_trade m)" "single_slot (sell_trade m)"
    "single_slot (buy_trade (close_trade m))" "single_slot (sell_trade (close_trade m))"
    using assms c by (simp_all add: buy_trade_def sell_trade_def single_slot_open)
  with assms c act_on_signal_cases [of m s r] show ?thesis by auto
qed

lemma single_slot_set_data: "single_slot m \<Longrightarrow> single_slot (set_data m df)"
  by (simp add: single_slot_def set_data_def)

lemma single_slot_auto:
  assumes "single_slot m"
  shows "single_slot (fst (auto_trade m df cd fi pd pp))"
proof -
  have d: "single_slot (set_data m df)" using assms by (rule single_slot_set_data)
  then have "single_slot (act_on_signal (set_data m df) s r)" for s r
    by (rule single_slot_act)
  with d auto_trade_cases [of m df cd fi pd pp] show ?thesis by auto
qed

lemma reachable_single_slot: "reachable m \<Longrightarrow> single_slot m"
proof (induction rule: reachable.induct)
  case init
  show ?case by (simp add: single_slot_def init_model_def)
next
  case (set_current_date m date)
  from set_current_date.IH show ?case by (simp add: single_slot_def set_current_date_def)
next
  case (set_data m df)
  from set_data.IH show ?case by (rule single_slot_set_data)
next
  case (buy_trade m)
  from buy_trade.IH show ?case by (simp add: buy_trade_def single_slot_open)
next
  case (sell_trade m)
  from sell_trade.IH show ?case by (simp add: sell_trade_def single_slot_open)
next
  case (close_trade m)
  from close_trade.IH show ?case by (rule single_slot_close)
next
  case (auto_trade m df current_datetime furthest_index peaks_distance peaks_prominence)
  from auto_trade.IH show ?case by (rule single_slot_auto)
qed

lemma single_slot_open_positions:
  assumes "single_slot m"
  shows "open_positions m \<le> 1"
proof -
  from assms have "filter (\<lambda>t. status t = status_open) (trades m) = []"
    by (auto simp add: single_slot_def filter_empty_conv list_all_iff)
  moreover from assms have l: "length (current_trade m) \<le> 1" by (simp add: single_slot_def)
  have "length (filter (\<lambda>t. status t = status_open) (current_trade m)) \<le> 1"
    by (rule order_trans [OF length_filter_le l])
  ultimately show ?thesis by (simp add: open_positions_def)
qed

lemma long_example_eq:
  "long_example = \<lparr>trades = [], current_trade = [\<lparr>type = buy, entry_date = Some 1,
       entry_price = 125 / 100, status = status_open, exit_date = None, exit_price = None,
       profit = None\<rparr>], current_date = Some 2, data = Some example_bars\<rparr>"
  by (simp add: long_example_def buy_trade_def open_trade_def set_current_date_def
      set_data_def init_model_def get_close_price_def example_bars_def new_trade_def)

lemma short_example_eq:
  "short_example = \<lparr>trades = [], current_trade = [\<lparr>type = sell, entry_date = Some 1,
       entry_price = 125 / 100, status = status_open, exit_date = None, exit_price = None,
       profit = None\<rparr>], current_date = Some 3, data = Some example_bars\<rparr>"
  by (simp add: short_example_def sell_trade_def open_trade_def set_current_date_def
      set_data_def init_model_def get_close_price_def example_bars_def new_trade_def)

lemma long_example_price: "get_close_price long_example (Some 2) = Inr (Some (1255 / 1000))"
  by (simp add: long_example_eq get_close_price_def example_bars_def)

lemma short_example_price: "get_close_price short_example (Some 3) = Inr (Some (1248 / 1000))"
  by (simp add: short_example_eq get_close_price_def example_bars_def)

text \<open>
  C4: when \<open>close_trade\<close> closes the open row \<open>t\<close> at the price \<open>xp\<close>, the row
  appended to the ledger has profit \<open>xp - entry_price\<close> for type 'buy' (Long) and
  \<open>entry_price - xp\<close> for type 'sell' (Short), over real-valued prices. The witness runs
  the two examples: Long 1.2500 to 1.2550 gives 0.0050, Short 1.2500 to 1.2480 gives 0.0020.
\<close>

theorem close_trade_realized_pnl:
  assumes "current_trade m = t # rest" and "status t = status_open"
    and "get_close_price m (current_date m) = Inr (Some xp)"
  shows "\<exists>row. trades (close_trade m) = trades m @ row # rest \<and>
           current_trade (close_trade m) = [] \<and>
           status row = status_closed \<and> type row = type t \<and>
           entry_price row = entry_price t \<and> exit_price row = Some xp \<and>
           (type t = buy \<longrightarrow> profit row = Some (xp - entry_price t)) \<and>
           (type t = sell \<longrightarrow> profit row = Some (entry_price t - xp))"
  using assms by (simp add: close_trade_def Let_def)

theorem close_trade_realized_pnl_witness:
  "(\<exists>row. trades (close_trade long_example) = [row] \<and> type row = buy \<and>
      entry_price row = 125 / 100 \<and> exit_price row = Some (1255 / 1000) \<and>
      profit row = Some (5 / 1000)) \<and>
   (\<exists>row. trades (close_trade short_example) = [row] \<and> type row = sell \<and>
      entry_price row = 125 / 100 \<and> exit_price row = Some (1248 / 1000) \<and>
      profit row = Some (2 / 1000))"
proof
  let ?t = "\<lparr>type = buy, entry_date = Some 1, entry_price = 125 / 100,
     status = status_open, exit_date = None, exit_price = None, profit = None\<rparr>"
  have h1: "current_trade long_example = ?t # []" by (simp add: long_example_eq)
  have h2: "status ?t = status_open" by simp
  have h3: "get_close_price long_example (current_date long_example)
      = Inr (Some (1255 / 1000))"
    using long_example_price by (simp add: long_example_eq)
  from close_trade_realized_pnl [OF h1 h2 h3]
  show "\<exists>row. trades (close_trade long_example) = [row] \<and> type row = buy \<and>
      entry_price row = 125 / 100 \<and> exit_price row = Some (1255 / 1000) \<and>
      profit row = Some (5 / 1000)"
    by (auto simp add: long_example_eq)
next
  let ?t = "\<lparr>type = sell, entry_date = Some 1, entry_price = 125 / 100,
     status = status_open, exit_date = None, exit_price = None, profit = None\<rparr>"
  have h1: "current_trade short_example = ?t # []" by (simp add: short_example_eq)
  have h2: "status ?t = status_open" by simp
  have h3: "get_close_price short_example (current_date short_example)
      = Inr (Some (1248 / 1000))"
    using short_example_price by (simp add: short_example_eq)
  from close_trade_realized_pnl [OF h1 h2 h3]
  show "\<exists>row. trades (close_trade short_example) = [row] \<and> type row = sell \<and>
      entry_price row = 125 / 100 \<and> exit_price row = Some (1248 / 1000) \<and>
      profit row = Some (2 / 1000)"
    by (auto simp add: short_example_eq)
qed

lemma trades_close_trade: "\<exists>new. trades (close_trade m) = trades m @ new"
  using close_trade_cases [of m] by (auto intro: exI [of _ "[]"])

lemma trades_open_trade: "\<exists>new. trades (open_trade tt m) = trades m @ new"
  using open_trade_cases [of tt m] trades_close_trade [of m] by auto

lemma trades_act_on_signal: "\<exists>new. trades (act_on_signal m s r) = trades m @ new"
proof -
  obtain n1 where c: "trades (close_trade m) = trades m @ n1"
    using trades_close_trade by blast
  obtain n2 where "trades (buy_trade (close_trade m)) = trades (close_trade m) @ n2"
    unfolding buy_trade_def using trades_open_trade by blast
  with c have bc: "trades (buy_trade (close_trade m)) = trades m @ (n1 @ n2)" by simp
  obtain n3 where "trades (sell_trade (close_trade m)) = trades (close_trade m) @ n3"
    unfolding sell_trade_def using trades_open_trade by blast
  with c have sc: "trades (sell_trade (close_trade m)) = trades m @ (n1 @ n3)" by simp
  obtain n4 where b: "trades (buy_trade m) = trades m @ n4"
    unfolding buy_trade_def using trades_open_trade by blast
  obtain n5 where s: "trades (sell_trade m) = trades m @ n5"
    unfolding sell_trade_def using trades_open_trade by blast
  have "\<exists>new. trades x = trades m @ new"
    if "x \<in> {m, close_trade m, buy_trade (close_trade m), sell_trade (close_trade m),
      buy_trade m, sell_trade m}" for x
    using that c bc sc b s by auto
  with act_on_signal_cases [of m s r] show ?thesis by blast
qed

lemma trades_auto_trade:
  "\<exists>new. trades (fst (auto_trade m df cd fi pd pp)) = trades m @ new"
proof -
  have d: "trades (set_data m df) = trades m" by (simp add: set_data_def)
  from auto_trade_cases [of m df cd fi pd pp] show ?thesis
  proof
    assume "fst (auto_trade m df cd fi pd pp) = set_data m df"
    with d show ?thesis by simp
  next
    assume "\<exists>s r. fst (auto_trade m df cd fi pd pp) = act_on_signal (set_data m df) s r"
    then obtain s r where "fst (auto_trade m df cd fi pd pp) = act_on_signal (set_data m df) s r"
      by blast
    with trades_act_on_signal [of "set_data m df" s r] d show ?thesis by simp
  qed
qed

lemma close_trade_not_open:
  "current_trade m = [] \<or> status (hd (current_trade m)) \<noteq> status_open \<Longrightarrow> close_trade m = m"
  by (auto simp add: close_trade_def)

lemma close_trade_twice: "close_trade (close_trade m) = close_trade m"
  using close_trade_cases [of m]
proof
  assume "close_trade m = m" then show ?thesis by simp
next
  assume "\<exists>xp. current_trade m \<noteq> [] \<and> status (hd (current_trade m)) = status_open \<and>
      get_close_price m (current_date m) = Inr (Some xp) \<and>
      close_trade m = m\<lparr>trades := trades m @
         (current_trade m)[0 := (hd (current_trade m))\<lparr>status := status_closed,
            exit_date := current_date m, exit_price := Some xp,
            profit := Some (if type (hd (current_trade m)) = buy
               then xp - entry_price (hd (current_trade m))
               else entry_price (hd (current_trade m)) - xp)\<rparr>],
         current_trade := []\<rparr>"
  then have "current_trade (close_trade m) = []" by auto
  then show ?thesis by (rule close_trade_empty)
qed

text \<open>
  C6: no operation shortens the ledger; \<open>close_trade\<close> with no open row in the live slot
  returns the model unchanged; and a second \<open>close_trade\<close> in a row changes nothing,
  whatever the first one did.
\<close>

theorem ledger_only_grows:
  "length (trades m) \<le> length (trades (close_trade m)) \<and>
   length (trades m) \<le> length (trades (buy_trade m)) \<and>
   length (trades m) \<le> length (trades (sell_trade m)) \<and>
   length (trades m) \<le> length (trades (set_current_date m date)) \<and>
   length (trades m) \<le> length (trades (set_data m df)) \<and>
   length (trades m) \<le> length (trades (fst (auto_trade m df current_datetime furthest_index
      peaks_distance peaks_prominence))) \<and>
   (current_trade m = [] \<or> status (hd (current_trade m)) \<noteq> status_open
      \<longrightarrow> close_trade m = m) \<and>
   close_trade (close_trade m) = close_trade m"
proof -
  obtain n1 where "trades (close_trade m) = trades m @ n1"
    using trades_close_trade by blast
  then have 1: "length (trades m) \<le> length (trades (close_trade m))" by simp
  obtain n2 where "trades (buy_trade m) = trades m @ n2"
    unfolding buy_trade_def using trades_open_trade by blast
  then have 2: "length (trades m) \<le> length (trades (buy_trade m))" by simp
  obtain n3 where "trades (sell_trade m) = trades m @ n3"
    unfolding sell_trade_def using trades_open_trade by blast
  then have 3: "length (trades m) \<le> length (trades (sell_trade m))" by simp
  have 4: "length (trades m) \<le> length (trades (set_current_date m date))"
    by (simp add: set_current_date_def)
  have 7: "length (trades m) \<le> length (trades (set_data m df))"
    by (simp add: set_data_def)
  obtain n5 where "trades (fst (auto_trade m df current_datetime furthest_index
      peaks_distance peaks_prominence)) = trades m @ n5"
    using trades_auto_trade by blast
  then have 5: "length (trades m) \<le> length (trades (fst (auto_trade m df current_datetime
      furthest_index peaks_distance peaks_prominence)))" by simp
  have 6: "current_trade m = [] \<or> status (hd (current_trade m)) \<noteq> status_open
      \<longrightarrow> close_trade m = m"
    using close_trade_not_open by blast
  from 1 2 3 4 5 6 7 close_trade_twice show ?thesis by blast
qed

theorem ledger_only_grows_witness:
  "current_trade init_model = [] \<and> close_trade init_model = init_model \<and>
   trades (close_trade (close_trade long_example)) = trades (close_trade long_example) \<and>
   length (trades (close_trade long_example)) = 1"
proof -
  have h: "current_trade init_model = []" by (simp add: init_model_def)
  have l: "length (trades (close_trade long_example)) = 1"
    by (simp add: long_example_eq close_trade_def get_close_price_def example_bars_def Let_def)
  from h l ledger_only_grows [of init_model] ledger_only_grows [of long_example]
  show ?thesis by simp
qed

lemma open_trade_replaces:
  assumes "current_trade m = [t]" and "status t = status_open"
    and "get_close_price m (current_date m) = Inr (Some p)"
  shows "current_trade (open_trade tt m) = [new_trade tt m p] \<and>
         trades (open_trade tt m) = trades m @
           [t\<lparr>status := status_closed, exit_date := current_date m, exit_price := Some p,
              profit := Some (if type t = buy then p - entry_price t else entry_price t - p)\<rparr>]"
proof -
  from open_trade_cases [of tt m] assms(3)
  have o: "open_trade tt m = (close_trade m)\<lparr>current_trade := [new_trade tt m p]\<rparr>"
    by auto
  from assms have c: "trades (close_trade m) = trades m @
           [t\<lparr>status := status_closed, exit_date := current_date m, exit_price := Some p,
              profit := Some (if type t = buy then p - entry_price t else entry_price t - p)\<rparr>]"
    by (simp add: close_trade_def Let_def)
  from o c show ?thesis by simp
qed

text \<open>
  C5: in every state the controller can reach, and after every further operation, at most
  one position (live slot and ledger together) has status open. Opening while a position
  is open and a price is available moves the old row, closed, to the ledger and leaves
  the new row alone in the live slot.
\<close>

theorem at_most_one_open_position:
  assumes "reachable m"
  shows "open_positions m \<le> 1 \<and>
         open_positions (buy_trade m) \<le> 1 \<and>
         open_positions (sell_trade m) \<le> 1 \<and>
         open_positions (close_trade m) \<le> 1 \<and>
         open_positions (fst (auto_trade m df current_datetime furthest_index peaks_distance
            peaks_prominence)) \<le> 1 \<and>
         (\<forall>t p. current_trade m = [t] \<and> status t = status_open \<and>
             get_close_price m (current_date m) = Inr (Some p) \<longrightarrow>
             current_trade (buy_trade m) = [new_trade buy m p] \<and>
             current_trade (sell_trade m) = [new_trade sell m p] \<and>
             status (last (trades (buy_trade m))) = status_closed \<and>
             status (last (trades (sell_trade m))) = status_closed \<and>
             length (trades (buy_trade m)) = length (trades m) + 1 \<and>
             length (trades (sell_trade m)) = length (trades m) + 1)"
proof -
  have r: "reachable x \<Longrightarrow> open_positions x \<le> 1" for x
    by (rule single_slot_open_positions) (rule reachable_single_slot)
  have 1: "open_positions m \<le> 1" using assms by (rule r)
  have 2: "open_positions (buy_trade m) \<le> 1"
    using assms by (intro r reachable.buy_trade)
  have 3: "open_positions (sell_trade m) \<le> 1"
    using assms by (intro r reachable.sell_trade)
  have 4: "open_positions (close_trade m) \<le> 1"
    using assms by (intro r reachable.close_trade)
  have 5: "open_positions (fst (auto_trade m df current_datetime furthest_index peaks_distance
            peaks_prominence)) \<le> 1"
    using assms by (intro r reachable.auto_trade)
  have 6: "current_trade (buy_trade m) = [new_trade buy m p] \<and>
             current_trade (sell_trade m) = [new_trade sell m p] \<and>
             status (last (trades (buy_trade m))) = status_closed \<and>
             status (last (trades (sell_trade m))) = status_closed \<and>
             length (trades (buy_trade m)) = length (trades m) + 1 \<and>
             length (trades (sell_trade m)) = length (trades m) + 1"
    if "current_trade m = [t] \<and> status t = status_open \<and>
             get_close_price m (current_date m) = Inr (Some p)" for t p
    using that open_trade_replaces [of m t p buy] open_trade_replaces [of m t p sell]
    by (simp add: buy_trade_def sell_trade_def)
  from 1 2 3 4 5 6 show ?thesis by blast
qed

lemma long_example_reachable: "reachable long_example"
  unfolding long_example_def
  by (intro reachable.set_current_date reachable.buy_trade reachable.set_data reachable.init)

theorem at_most_one_open_position_witness:
  "reachable long_example \<and> open_positions long_example = 1 \<and>
   open_positions (sell_trade long_example) = 1 \<and>
   current_trade (sell_trade long_example) = [new_trade sell long_example (1255 / 1000)] \<and>
   length (trades (sell_trade long_example)) = 1 \<and>
   status (last (trades (sell_trade long_example))) = status_closed"
proof -
  let ?t = "\<lparr>type = buy, entry_date = Some 1, entry_price = 125 / 100,
     status = status_open, exit_date = None, exit_price = None, profit = None\<rparr>"
  have h: "current_trade long_example = [?t] \<and> status ?t = status_open \<and>
      get_close_price long_example (current_date long_example) = Inr (Some (1255 / 1000))"
    using long_example_price by (simp add: long_example_eq)
  have o: "open_positions long_example = 1"
    by (simp add: long_example_eq open_positions_def)
  from at_most_one_open_position [OF long_example_reachable, of example_bars 0 0 1 0]
  have a: "\<forall>t p. current_trade long_example = [t] \<and> status t = status_open \<and>
             get_close_price long_example (current_date long_example) = Inr (Some p) \<longrightarrow>
             current_trade (sell_trade long_example) = [new_trade sell long_example p] \<and>
             status (last (trades (sell_trade long_example))) = status_closed \<and>
             length (trades (sell_trade long_example)) = length (trades long_example) + 1"
    by blast
  from a h have b: "current_trade (sell_trade long_example) =
        [new_trade sell long_example (1255 / 1000)] \<and>
      status (last (trades (sell_trade long_example))) = status_closed \<and>
      length (trades (sell_trade long_example)) = length (trades long_example) + 1"
    by blast
  have t0: "trades long_example = []" by (simp add: long_example_eq)
  from b t0 have "open_positions (sell_trade long_example) = 1"
    by (cases "trades (sell_trade long_example)")
       (auto simp add: open_positions_def new_trade_def)
  with b t0 o long_example_reachable show ?thesis by simp
qed

section \<open>Properties of the signal detector\<close>

lemma look_ahead_plateau:
  "s \<le> k \<Longrightarrow> k < look_ahead x i i_max s \<Longrightarrow> x ! k = x ! i"
proof (induction x i i_max s rule: look_ahead.induct)
  case (1 x i i_max i_ahead)
  show ?case
  proof (cases "i_ahead < i_max \<and> x ! i_ahead = x ! i")
    case True
    then have eq: "look_ahead x i i_max i_ahead = look_ahead x i i_max (Suc i_ahead)"
      by (subst look_ahead.simps) simp
    show ?thesis
    proof (cases "k = i_ahead")
      case True
      with \<open>i_ahead < i_max \<and> x ! i_ahead = x ! i\<close> show ?thesis by simp
    next
      case False
      with "1.prems" have "Suc i_ahead \<le> k" by simp
      moreover from "1.prems" eq have "k < look_ahead x i i_max (Suc i_ahead)" by simp
      ultimately show ?thesis using "1.IH" True by blast
    qed
  next
    case False
    then have "look_ahead x i i_max i_ahead = i_ahead"
      by (subst look_ahead.simps) auto
    with "1.prems" show ?thesis by simp
  qed
qed

lemma look_ahead_le: "s \<le> i_max \<Longrightarrow> look_ahead x i i_max s \<le> i_max"
proof (induction x i i_max s rule: look_ahead.induct)
  case (1 x i i_max i_ahead)
  show ?case
  proof (cases "i_ahead < i_max \<and> x ! i_ahead = x ! i")
    case True
    then have "look_ahead x i i_max i_ahead = look_ahead x i i_max (Suc i_ahead)"
      by (subst look_ahead.simps) simp
    moreover from True have "Suc i_ahead \<le> i_max" by simp
    ultimately show ?thesis using "1.IH" True by simp
  next
    case False
    then have "look_ahead x i i_max i_ahead = i_ahead"
      by (subst look_ahead.simps) auto
    with "1.prems" show ?thesis by simp
  qed
qed

lemma local_maxima_loop_sound:
  "(mid, l, r) \<in> set (local_maxima_loop x i_max i) \<Longrightarrow> 1 \<le> i \<Longrightarrow> i_max < length x \<Longrightarrow>
     i \<le> l \<and> l \<le> mid \<and> mid \<le> r \<and> plateau_peak x l r"
proof (induction x i_max i rule: local_maxima_loop.induct)
  case (1 x i_max i)
  let ?a = "look_ahead x i i_max (i + 1)"
  have ge: "i + 1 \<le> ?a" by (rule look_ahead_ge)
  note pos = \<open>1 \<le> i\<close> and len = \<open>i_max < length x\<close>
  note mem = \<open>(mid, l, r) \<in> set (local_maxima_loop x i_max i)\<close>
  show ?case
  proof (cases "i < i_max")
    case False
    then have "local_maxima_loop x i_max i = []"
      by (subst local_maxima_loop.simps [of x i_max i]) simp
    with mem show ?thesis by simp
  next
    case lt: True
    then have le: "?a \<le> i_max" by (intro look_ahead_le) simp
    show ?thesis
    proof (cases "x ! (i - 1) < x ! i")
      case False
      with lt have "local_maxima_loop x i_max i = local_maxima_loop x i_max (i + 1)"
        by (subst local_maxima_loop.simps [of x i_max i]) simp
      with mem have "(mid, l, r) \<in> set (local_maxima_loop x i_max (i + 1))" by simp
      with lt False have "i + 1 \<le> l \<and> l \<le> mid \<and> mid \<le> r \<and> plateau_peak x l r"
        using len by (intro "1.IH"(3)) simp_all
      then show ?thesis by simp
    next
      case up: True
      show ?thesis
      proof (cases "x ! ?a < x ! i")
        case False
        with lt up have "local_maxima_loop x i_max i = local_maxima_loop x i_max (i + 1)"
          by (subst local_maxima_loop.simps [of x i_max i]) simp
        with mem have "(mid, l, r) \<in> set (local_maxima_loop x i_max (i + 1))" by simp
        with lt up False have "i + 1 \<le> l \<and> l \<le> mid \<and> mid \<le> r \<and> plateau_peak x l r"
          using len by (intro "1.IH"(2)) simp_all
        then show ?thesis by simp
      next
        case down: True
        with lt up have "local_maxima_loop x i_max i =
            ((i + (?a - 1)) div 2, i, ?a - 1) # local_maxima_loop x i_max (?a + 1)"
          by (subst local_maxima_loop.simps [of x i_max i]) simp
        with mem have
          "(mid, l, r) = ((i + (?a - 1)) div 2, i, ?a - 1) \<or>
           (mid, l, r) \<in> set (local_maxima_loop x i_max (?a + 1))"
          by simp
        then show ?thesis
        proof
          assume "(mid, l, r) \<in> set (local_maxima_loop x i_max (?a + 1))"
          with lt up down have "?a + 1 \<le> l \<and> l \<le> mid \<and> mid \<le> r \<and> plateau_peak x l r"
            using len by (intro "1.IH"(1)) simp_all
          with ge show ?thesis by simp
        next
          assume "(mid, l, r) = ((i + (?a - 1)) div 2, i, ?a - 1)"
          then have m: "mid = (i + (?a - 1)) div 2" and l: "l = i" and r: "r = ?a - 1"
            by simp_all
          have pl: "x ! k = x ! i" if "i \<le> k \<and> k \<le> ?a - 1" for k
          proof (cases "k = i")
            case True then show ?thesis by simp
          next
            case False
            with that ge have "i + 1 \<le> k" "k < ?a" by linarith+
            then show ?thesis by (rule look_ahead_plateau)
          qed
          from ge have "?a - 1 + 1 = ?a" by simp
          with down have d: "x ! (?a - 1 + 1) < x ! i" by simp
          from ge le have b: "i \<le> (i + (?a - 1)) div 2" "(i + (?a - 1)) div 2 \<le> ?a - 1"
            "i \<le> ?a - 1" by simp_all
          from ge le len have b2: "?a - 1 + 1 < length x" by simp
          have "plateau_peak x i (?a - 1)"
            unfolding plateau_peak_def
            using pos b(3) b2 up d pl by (intro conjI allI impI)
          with b show ?thesis unfolding m l r by simp
        qed
      qed
    qed
  qed
qed

lemma local_maxima_1d_sound:
  assumes "(mid, l, r) \<in> set (local_maxima_1d x)"
  shows "l \<le> mid \<and> mid \<le> r \<and> plateau_peak x l r"
proof (cases "x = []")
  case True
  have "local_maxima_loop [] 0 1 = []"
    by (subst local_maxima_loop.simps) simp
  with True assms show ?thesis by (simp add: local_maxima_1d_def)
next
  case False
  then have "length x - 1 < length x" by simp
  with assms local_maxima_loop_sound [of mid l r x "length x - 1" 1]
  show ?thesis by (simp add: local_maxima_1d_def)
qed

lemma plateau_peak_uminus:
  assumes p: "plateau_peak x l r" and v: "plateau_peak (map uminus x) l' r'"
    and m: "l \<le> m" "m \<le> r" "l' \<le> m" "m \<le> r'"
  shows False
proof -
  from p have pl: "\<And>k. l \<le> k \<Longrightarrow> k \<le> r \<Longrightarrow> x ! k = x ! l"
    unfolding plateau_peak_def by blast
  from p have pu: "x ! (l - 1) < x ! l" and p1: "1 \<le> l"
    unfolding plateau_peak_def by blast+
  from v have len: "r' + 1 < length x" and v1: "1 \<le> l'" and vr: "l' \<le> r'"
    unfolding plateau_peak_def by simp_all
  from v have vl0: "\<And>k. l' \<le> k \<Longrightarrow> k \<le> r' \<Longrightarrow> (map uminus x) ! k = (map uminus x) ! l'"
    unfolding plateau_peak_def by blast
  from v have vu0: "(map uminus x) ! (l' - 1) < (map uminus x) ! l'"
    unfolding plateau_peak_def by blast
  have vl: "x ! k = x ! l'" if "l' \<le> k" "k \<le> r'" for k
  proof -
    from that len vr have "k < length x" "l' < length x" by simp_all
    with vl0 [OF that] show ?thesis by simp
  qed
  from len vr have "l' - 1 < length x" "l' < length x" by simp_all
  with vu0 have vu: "x ! l' < x ! (l' - 1)" by simp
  consider "l < l'" | "l' < l" | "l = l'" by linarith
  then show False
  proof cases
    case 1
    with m v1 have b: "l \<le> l' - 1" "l' - 1 \<le> r" "l \<le> l'" "l' \<le> r" by linarith+
    have "x ! (l' - 1) = x ! l" using b(1) b(2) by (rule pl)
    moreover have "x ! l' = x ! l" using b(3) b(4) by (rule pl)
    ultimately have "x ! (l' - 1) = x ! l'" by simp
    with vu show False by simp
  next
    case 2
    with m p1 have b: "l' \<le> l - 1" "l - 1 \<le> r'" "l' \<le> l" "l \<le> r'" by linarith+
    have "x ! (l - 1) = x ! l'" using b(1) b(2) by (rule vl)
    moreover have "x ! l = x ! l'" using b(3) b(4) by (rule vl)
    ultimately have "x ! (l - 1) = x ! l" by simp
    with pu show False by simp
  next
    case 3
    with pu vu show False by simp
  qed
qed

lemma local_maxima_disjoint:
  assumes "m \<in> fst ` set (local_maxima_1d x)"
    and "m \<in> fst ` set (local_maxima_1d (map uminus x))"
  shows False
proof -
  from assms(1) obtain l r where "(m, l, r) \<in> set (local_maxima_1d x)" by force
  then have a: "l \<le> m \<and> m \<le> r \<and> plateau_peak x l r" by (rule local_maxima_1d_sound)
  from assms(2) obtain l' r' where "(m, l', r') \<in> set (local_maxima_1d (map uminus x))"
    by force
  then have b: "l' \<le> m \<and> m \<le> r' \<and> plateau_peak (map uminus x) l' r'"
    by (rule local_maxima_1d_sound)
  from a b show False using plateau_peak_uminus [of x l r l' r' m] by simp
qed

lemma set_selected_subset: "set (map fst (filter P (zip xs ys))) \<subseteq> set xs"
  by (auto dest: set_zip_leftD)

lemma find_peaks_subset:
  assumes "find_peaks x distance prominence = Inr peaks"
  shows "set peaks \<subseteq> fst ` set (local_maxima_1d x)"
proof -
  let ?p0 = "map fst (local_maxima_1d x)"
  let ?p1 = "map fst (filter snd (zip ?p0
      (select_by_peak_distance ?p0 (map (\<lambda>p. x ! p) ?p0) distance)))"
  from assms have "peaks = map fst (filter (\<lambda>(p, pr). prominence \<le> pr)
      (zip ?p1 (map (peak_prominence x) ?p1)))"
    by (simp add: find_peaks_def Let_def split: if_splits)
  then have "set peaks \<subseteq> set ?p1" by (simp only: set_selected_subset)
  also have "\<dots> \<subseteq> set ?p0" by (rule set_selected_subset)
  finally show ?thesis by simp
qed

lemma assign_length [simp]: "length (assign s idx v) = length s"
  unfolding assign_def by (induction idx arbitrary: s) simp_all

lemma assign_hit:
  "i < length s \<Longrightarrow> i \<in> set idx \<or> s ! i = v \<Longrightarrow> assign s idx v ! i = v"
  unfolding assign_def
proof (induction idx arbitrary: s)
  case Nil
  then show ?case by simp
next
  case (Cons j idx)
  have "i \<in> set idx \<or> s[j := v] ! i = v"
    using Cons.prems by (cases "i = j") auto
  with Cons.prems(1) Cons.IH [of "s[j := v]"] show ?case by simp
qed

lemma assign_miss: "i \<notin> set idx \<Longrightarrow> assign s idx v ! i = s ! i"
  unfolding assign_def by (induction idx arbitrary: s) auto

text \<open>
  C8, as the code has it: the peaks found in \<open>x\<close> and the valleys found in \<open>-x\<close> share no
  index, for any distance and prominence. The order of the two writes decides a tie: the
  valleys are written last, so an index given in both lists ends as 0 (Buy), not 2 (Sell).
\<close>

theorem peaks_valleys_disjoint_buy_wins:
  "(find_peaks x distance prominence = Inr peak_indices \<and>
    find_peaks (map uminus x) distance prominence = Inr valley_indices
      \<longrightarrow> set peak_indices \<inter> set valley_indices = {}) \<and>
   (i \<in> set ps \<and> i \<in> set vs \<and> i < n \<longrightarrow> signal_array n ps vs ! i = 0)"
proof
  show "find_peaks x distance prominence = Inr peak_indices \<and>
    find_peaks (map uminus x) distance prominence = Inr valley_indices
      \<longrightarrow> set peak_indices \<inter> set valley_indices = {}"
  proof
    assume a: "find_peaks x distance prominence = Inr peak_indices \<and>
      find_peaks (map uminus x) distance prominence = Inr valley_indices"
    from a have "find_peaks x distance prominence = Inr peak_indices" by simp
    then have 1: "set peak_indices \<subseteq> fst ` set (local_maxima_1d x)"
      by (rule find_peaks_subset)
    from a have "find_peaks (map uminus x) distance prominence = Inr valley_indices" by simp
    then have 2: "set valley_indices \<subseteq> fst ` set (local_maxima_1d (map uminus x))"
      by (rule find_peaks_subset)
    show "set peak_indices \<inter> set valley_indices = {}"
    proof (rule ccontr)
      assume "set peak_indices \<inter> set valley_indices \<noteq> {}"
      then obtain m where "m \<in> set peak_indices" "m \<in> set valley_indices" by blast
      with 1 2 have "m \<in> fst ` set (local_maxima_1d x)"
        "m \<in> fst ` set (local_maxima_1d (map uminus x))" by blast+
      then show False by (rule local_maxima_disjoint)
    qed
  qed
next
  show "i \<in> set ps \<and> i \<in> set vs \<and> i < n \<longrightarrow> signal_array n ps vs ! i = 0"
    by (simp add: signal_array_def assign_hit)
qed

text \<open>
  C8 as stated fails in its last part: with index 1 in both lists the final value is 0 (Buy).
\<close>

theorem tie_at_same_index_counterexample:
  "signal_array 3 [1] [1] ! 1 = 0 \<and> signal_array 3 [1] [1] ! 1 \<noteq> 2"
  by (simp add: signal_array_def assign_def)

lemma peaks_example: "find_peaks [0, 1, 0, -1, 0] 1 (1 / 10) = Inr [1]"
  by code_simp

lemma valleys_example: "find_peaks (map uminus [0, 1, 0, -1, 0]) 1 (1 / 10) = Inr [3]"
  by code_simp

theorem peaks_valleys_disjoint_buy_wins_witness:
  "find_peaks [0, 1, 0, -1, 0] 1 (1 / 10) = Inr [1] \<and>
   find_peaks (map uminus [0, 1, 0, -1, 0]) 1 (1 / 10) = Inr [3] \<and>
   set [1::nat] \<inter> set [3] = {} \<and>
   (1::nat) \<in> set [1, 2] \<and> (1::nat) \<in> set [1] \<and> (1::nat) < 3 \<and>
   signal_array 3 [1, 2] [1] ! 1 = 0"
proof -
  have h: "find_peaks [0, 1, 0, -1, 0] 1 (1 / 10) = Inr [1] \<and>
      find_peaks (map uminus [0, 1, 0, -1, 0]) 1 (1 / 10) = Inr [3]"
    using peaks_example valleys_example by (rule conjI)
  have g: "(1::nat) \<in> set [1, 2] \<and> (1::nat) \<in> set [1] \<and> (1::nat) < 3" by simp
  from peaks_valleys_disjoint_buy_wins [of "[0, 1, 0, -1, 0]" 1 "1 / 10" "[1]" "[3]" 1
      "[1, 2]" "[1]" 3]
  have "(find_peaks [0, 1, 0, -1, 0] 1 (1 / 10) = Inr [1] \<and>
      find_peaks (map uminus [0, 1, 0, -1, 0]) 1 (1 / 10) = Inr [3]
        \<longrightarrow> set [1::nat] \<inter> set [3] = {}) \<and>
     ((1::nat) \<in> set [1, 2] \<and> (1::nat) \<in> set [1] \<and> (1::nat) < 3
        \<longrightarrow> signal_array 3 [1, 2] [1] ! 1 = 0)" .
  with h g show ?thesis by blast
qed

lemma spike_scaled: "fit_transform [1, 1, 1, 2, 1, 1] = Inr [0, 0, 0, 1, 0, 0]"
  by code_simp

lemma spike_peaks: "find_peaks [0, 0, 0, 1, 0, 0] 1 (1 / 10) = Inr [3]"
  by code_simp

lemma spike_valleys: "find_peaks (map uminus [0, 0, 0, 1, 0, 0]) 1 (1 / 10) = Inr []"
  by code_simp

lemma spike_signal:
  "signal_array (Suc (Suc (Suc (Suc (Suc (Suc 0)))))) [3] [] = [1, 1, 1, 2, 1, 1]"
  by code_simp

text \<open>
  C9: on the closes [1.0, 1.0, 1.0, 2.0, 1.0, 1.0] with distance 1 and prominence 0.1 the
  detector returns 2 (Sell) at index 3 and 1 (neutral) everywhere else; no index is 0 (Buy).
  The other columns of the window do not matter.
\<close>

theorem spike_window_signals:
  "find_peaks_and_valleys
     \<lparr>nrows = 6, Time = Some time_col, Close = Some [1, 1, 1, 2, 1, 1],
      Signal = signal_col, others = other_cols\<rparr> 1 (1 / 10) False
   = Inr (Array [1, 1, 1, 2, 1, 1])"
  by (simp add: find_peaks_and_valleys_def spike_scaled spike_peaks spike_valleys
      spike_signal del: list.map)

lemma fit_transform_empty: "fit_transform [] = Inl ValueError"
  by (simp add: fit_transform_def)

lemma detector_no_close:
  "Close df = None \<Longrightarrow> find_peaks_and_valleys df distance prominence rolling = Inl KeyError"
  by (simp add: find_peaks_and_valleys_def)

lemma detector_empty:
  assumes "nrows df = 0" and "wf_frame df"
  shows "find_peaks_and_valleys df distance prominence rolling = Inl KeyError \<or>
         find_peaks_and_valleys df distance prominence rolling = Inl ValueError"
proof (cases "Close df")
  case None
  then show ?thesis by (simp add: detector_no_close)
next
  case (Some cs)
  with assms have "cs = []" by (simp add: wf_frame_def)
  with Some show ?thesis
    by (cases "Time df") (simp_all add: find_peaks_and_valleys_def fit_transform_empty)
qed

lemma auto_trade_detector_error:
  "find_peaks_and_valleys df pd pp True = Inl e \<Longrightarrow>
     auto_trade m df cd fi pd pp = (set_data m df, df)"
  by (simp add: auto_trade_def Let_def)

lemma auto_trade_empty:
  "empty df \<Longrightarrow> auto_trade m df cd fi pd pp = (set_data m df, df)"
  by (simp add: auto_trade_def Let_def)

text \<open>
  C3, as the code has it: \<open>find_peaks_and_valleys\<close> raises on a window without a Close
  column (KeyError) and on a window with no rows (KeyError or the scaler's ValueError); it
  returns no result there. Its caller \<open>auto_trade\<close> takes no action on such a window:
  the live slot, the ledger and the window are as before.
\<close>

theorem detector_raises_auto_trade_absorbs:
  "(Close df = None \<longrightarrow>
      find_peaks_and_valleys df distance prominence rolling = Inl KeyError) \<and>
   (nrows df = 0 \<and> wf_frame df \<longrightarrow>
      find_peaks_and_valleys df distance prominence rolling = Inl KeyError \<or>
      find_peaks_and_valleys df distance prominence rolling = Inl ValueError) \<and>
   (nrows df = 0 \<or> Close df = None \<longrightarrow>
      snd (auto_trade m df current_datetime furthest_index distance prominence) = df \<and>
      current_trade (fst (auto_trade m df current_datetime furthest_index distance
         prominence)) = current_trade m \<and>
      trades (fst (auto_trade m df current_datetime furthest_index distance prominence))
         = trades m)"
proof (intro conjI impI)
  assume "Close df = None"
  then show "find_peaks_and_valleys df distance prominence rolling = Inl KeyError"
    by (rule detector_no_close)
next
  assume "nrows df = 0 \<and> wf_frame df"
  then show "find_peaks_and_valleys df distance prominence rolling = Inl KeyError \<or>
      find_peaks_and_valleys df distance prominence rolling = Inl ValueError"
    using detector_empty by blast
next
  assume a: "nrows df = 0 \<or> Close df = None"
  have "auto_trade m df current_datetime furthest_index distance prominence
      = (set_data m df, df)"
  proof (cases "empty df")
    case True
    then show ?thesis by (rule auto_trade_empty)
  next
    case False
    with a have "Close df = None" by (auto simp add: empty_def)
    then have "find_peaks_and_valleys df distance prominence True = Inl KeyError"
      by (rule detector_no_close)
    then show ?thesis by (rule auto_trade_detector_error)
  qed
  then show "snd (auto_trade m df current_datetime furthest_index distance prominence) = df"
    and "current_trade (fst (auto_trade m df current_datetime furthest_index distance
         prominence)) = current_trade m"
    and "trades (fst (auto_trade m df current_datetime furthest_index distance prominence))
         = trades m"
    by (simp_all add: set_data_def)
qed

text \<open>
  C3 as stated fails: the detector raises on a window without Close and on the empty window.
\<close>

theorem detector_raises_counterexample:
  "find_peaks_and_valleys no_close_window 5 (1 / 10) False = Inl KeyError \<and>
   find_peaks_and_valleys empty_window 5 (1 / 10) False = Inl ValueError \<and>
   find_peaks_and_valleys empty_window 5 (1 / 10) True = Inl ValueError"
  by (simp add: find_peaks_and_valleys_def no_close_window_def empty_window_def
      fit_transform_empty)

theorem detector_raises_auto_trade_absorbs_witness:
  "Close no_close_window = None \<and> nrows empty_window = 0 \<and> wf_frame empty_window \<and>
   find_peaks_and_valleys no_close_window 5 (1 / 10) True = Inl KeyError \<and>
   find_peaks_and_valleys empty_window 5 (1 / 10) True = Inl ValueError \<and>
   snd (auto_trade long_example no_close_window 2 100 5 (1 / 10)) = no_close_window \<and>
   current_trade (fst (auto_trade long_example no_close_window 2 100 5 (1 / 10)))
     = current_trade long_example \<and>
   trades (fst (auto_trade long_example empty_window 2 100 5 (1 / 10))) = trades long_example"
proof -
  have h1: "Close no_close_window = None" by (simp add: no_close_window_def)
  have h2: "nrows empty_window = 0 \<and> wf_frame empty_window"
    by (simp add: empty_window_def wf_frame_def)
  have e: "find_peaks_and_valleys empty_window 5 (1 / 10) True \<noteq> Inl KeyError"
    by (simp add: find_peaks_and_valleys_def empty_window_def fit_transform_empty)
  from h1 h2 e
    detector_raises_auto_trade_absorbs [of no_close_window 5 "1 / 10" True long_example 2 100]
    detector_raises_auto_trade_absorbs [of empty_window 5 "1 / 10" True long_example 2 100]
  show ?thesis by blast
qed

section \<open>Properties of auto_trade\<close>

lemma set_last_signal_other [simp]:
  "nrows (set_last_signal df s) = nrows df"
  "Time (set_last_signal df s) = Time df"
  "Close (set_last_signal df s) = Close df"
  "others (set_last_signal df s) = others df"
  by (simp_all add: set_last_signal_def)

lemma auto_trade_run:
  assumes "\<not> empty df" and "find_peaks_and_valleys df pd pp True = Inr (Scalar s)"
    and "select_signal (set_data m df) (set_last_signal df s) = Inr (Some (i, sg))"
  shows "auto_trade m df cd fi pd pp =
     (act_on_signal (set_data m df) sg (int (nrows df - 1) - int i \<le> fi),
      set_last_signal df s)"
  using assms by (simp add: auto_trade_def Let_def)

lemma valid_signals_last:
  assumes "valid_signals signal_col rows \<noteq> []"
  shows "last (valid_signals signal_col rows) \<in> set rows \<and>
     (signal_col ! last (valid_signals signal_col rows) = Some 0 \<or>
      signal_col ! last (valid_signals signal_col rows) = Some 2)"
proof -
  from assms have "last (valid_signals signal_col rows) \<in> set (valid_signals signal_col rows)"
    by (rule last_in_set)
  then show ?thesis by (simp add: valid_signals_def)
qed

lemma set_signals_since_last_trade:
  "set (signals_since_last_trade time_col ltd cur) =
     {i. i < length time_col \<and> time_col ! i \<le> cur \<and> (\<forall>d. ltd = Some d \<longrightarrow> d < time_col ! i)}"
  by (cases ltd) (auto simp add: signals_since_last_trade_def)

lemma select_signal_some:
  assumes "select_signal m df = Inr (Some (i, sg))" and "Time df = Some time_col"
  shows "(sg = Some 0 \<or> sg = Some 2) \<and>
     i \<in> set (signals_since_last_trade time_col (latest_trade_date m) (last time_col))"
proof -
  from assms obtain signal_col where sc: "Signal df = Some signal_col"
    by (cases "Signal df") (simp_all add: select_signal_def)
  let ?valid = "valid_signals signal_col
     (signals_since_last_trade time_col (latest_trade_date m) (last time_col))"
  from assms sc have ne: "?valid \<noteq> []"
    by (auto simp add: select_signal_def Let_def split: if_splits)
  with assms sc have "i = last ?valid" "sg = signal_col ! last ?valid"
    by (auto simp add: select_signal_def Let_def split: if_splits)
  with valid_signals_last [OF ne] show ?thesis by simp
qed

lemma act_on_signal_data [simp]: "data (act_on_signal m sg r) = data m"
proof -
  have o: "data (open_trade tt x) = data x" for tt x
    using open_trade_cases [of tt x] by auto
  from act_on_signal_cases [of m sg r] show ?thesis
    by (auto simp add: buy_trade_def sell_trade_def o)
qed

lemma auto_trade_frame:
  "snd (auto_trade m df cd fi pd pp) = df \<or>
   (\<exists>s. \<not> empty df \<and> find_peaks_and_valleys df pd pp True = Inr (Scalar s) \<and>
      snd (auto_trade m df cd fi pd pp) = set_last_signal df s)"
  by (auto simp add: auto_trade_def Let_def split: sum.splits signals.splits option.splits)

lemma auto_trade_frame_ok:
  "\<not> empty df \<Longrightarrow> find_peaks_and_valleys df pd pp True = Inr (Scalar s) \<Longrightarrow>
     snd (auto_trade m df cd fi pd pp) = set_last_signal df s"
  by (auto simp add: auto_trade_def Let_def split: sum.splits signals.splits option.splits)

lemma auto_trade_data: "data (fst (auto_trade m df cd fi pd pp)) = Some df"
  using auto_trade_cases [of m df cd fi pd pp] by (auto simp add: set_data_def)

lemma signal_cell_set_last_signal_other:
  "i \<noteq> nrows df - 1 \<Longrightarrow> signal_cell (set_last_signal df s) i = signal_cell df i"
  by (cases "Signal df") (simp_all add: signal_cell_def set_last_signal_def)

lemma signal_cell_set_last_signal_last:
  assumes "wf_frame df" and "0 < nrows df"
  shows "signal_cell (set_last_signal df s) (nrows df - 1) = Some s"
proof (cases "Signal df")
  case None
  with assms show ?thesis by (simp add: signal_cell_def set_last_signal_def)
next
  case (Some signal_col)
  with assms have "length signal_col = nrows df" by (simp add: wf_frame_def)
  with Some assms show ?thesis by (simp add: signal_cell_def set_last_signal_def)
qed

text \<open>
  C10: \<open>auto_trade\<close> stores the window as it was passed in \<open>model.data\<close>; of the caller's
  DataFrame it leaves the row count and every column but Signal as they were, and every
  Signal cell but the last row's; when the detector returns a signal, that signal is in the
  last row's Signal cell afterwards. The detector is a function of the window and writes
  to no DataFrame.
\<close>

theorem auto_trade_writes_last_signal_only:
  "data (fst (auto_trade m df current_datetime furthest_index peaks_distance peaks_prominence))
     = Some df \<and>
   nrows (snd (auto_trade m df current_datetime furthest_index peaks_distance
     peaks_prominence)) = nrows df \<and>
   Time (snd (auto_trade m df current_datetime furthest_index peaks_distance
     peaks_prominence)) = Time df \<and>
   Close (snd (auto_trade m df current_datetime furthest_index peaks_distance
     peaks_prominence)) = Close df \<and>
   others (snd (auto_trade m df current_datetime furthest_index peaks_distance
     peaks_prominence)) = others df \<and>
   (i \<noteq> nrows df - 1 \<longrightarrow>
      signal_cell (snd (auto_trade m df current_datetime furthest_index peaks_distance
        peaks_prominence)) i = signal_cell df i) \<and>
   (wf_frame df \<and> \<not> empty df \<and>
    find_peaks_and_valleys df peaks_distance peaks_prominence True = Inr (Scalar s) \<longrightarrow>
      signal_cell (snd (auto_trade m df current_datetime furthest_index peaks_distance
        peaks_prominence)) (nrows df - 1) = Some s)"
proof -
  let ?r = "auto_trade m df current_datetime furthest_index peaks_distance peaks_prominence"
  have 1: "data (fst ?r) = Some df" by (rule auto_trade_data)
  from auto_trade_frame [of m df current_datetime furthest_index peaks_distance
      peaks_prominence]
  have 2: "nrows (snd ?r) = nrows df \<and> Time (snd ?r) = Time df \<and>
      Close (snd ?r) = Close df \<and> others (snd ?r) = others df"
    by auto
  from auto_trade_frame [of m df current_datetime furthest_index peaks_distance
      peaks_prominence]
  have 3: "i \<noteq> nrows df - 1 \<longrightarrow> signal_cell (snd ?r) i = signal_cell df i"
    by (auto simp add: signal_cell_set_last_signal_other)
  have 4: "signal_cell (snd ?r) (nrows df - 1) = Some s"
    if a: "wf_frame df \<and> \<not> empty df \<and>
      find_peaks_and_valleys df peaks_distance peaks_prominence True = Inr (Scalar s)"
  proof -
    from a have w: "wf_frame df" and p: "0 < nrows df" by (simp_all add: empty_def)
    from a have "snd ?r = set_last_signal df s"
      by (simp add: auto_trade_frame_ok)
    with signal_cell_set_last_signal_last [OF w p, of s] show ?thesis by simp
  qed
  from 1 2 3 4 show ?thesis by blast
qed

lemma long_at_1_eq:
  "long_at_1 = \<lparr>trades = [], current_trade = [\<lparr>type = buy, entry_date = Some 1,
       entry_price = 125 / 100, status = status_open, exit_date = None, exit_price = None,
       profit = None\<rparr>], current_date = Some 4, data = Some buy_window\<rparr>"
  by (simp add: long_at_1_def buy_trade_def open_trade_def set_current_date_def
      set_data_def init_model_def get_close_price_def four_bars_def new_trade_def
      buy_window_def)

lemma four_bars_detector: "find_peaks_and_valleys (four_bars signal_col) 5 (1 / 10) True = Inr (Scalar 1)"
proof -
  have "find_peaks_and_valleys (four_bars []) 5 (1 / 10) True = Inr (Scalar 1)"
    by code_simp
  then show ?thesis by (simp add: find_peaks_and_valleys_def four_bars_def)
qed

lemma four_bars_wf: "wf_frame (four_bars [a, b, c, d]) \<and> \<not> empty (four_bars [a, b, c, d])"
  by (simp add: wf_frame_def empty_def four_bars_def)

lemma sell_window_select:
  "select_signal (set_data long_at_1 sell_window) (set_last_signal sell_window 1)
     = Inr (Some (1, Some 2))"
  by (simp add: long_at_1_eq select_signal_def set_data_def set_last_signal_def
      sell_window_def four_bars_def latest_trade_date_def signals_since_last_trade_def
      valid_signals_def upt_rec Let_def)

lemma sell_window_price:
  "get_close_price (set_data long_at_1 sell_window) (current_date long_at_1)
     = Inr (Some (126 / 100))"
  by (simp add: long_at_1_eq get_close_price_def set_data_def sell_window_def four_bars_def)

theorem auto_trade_writes_last_signal_only_witness:
  "wf_frame sell_window \<and> \<not> empty sell_window \<and>
   find_peaks_and_valleys sell_window 5 (1 / 10) True = Inr (Scalar 1) \<and>
   (0::nat) \<noteq> nrows sell_window - 1 \<and>
   data (fst (auto_trade long_at_1 sell_window 4 100 5 (1 / 10))) = Some sell_window \<and>
   signal_cell (snd (auto_trade long_at_1 sell_window 4 100 5 (1 / 10))) 0
     = signal_cell sell_window 0 \<and>
   signal_cell (snd (auto_trade long_at_1 sell_window 4 100 5 (1 / 10))) 3 = Some 1"
proof -
  have h1: "wf_frame sell_window \<and> \<not> empty sell_window"
    unfolding sell_window_def by (rule four_bars_wf)
  have h2: "find_peaks_and_valleys sell_window 5 (1 / 10) True = Inr (Scalar 1)"
    unfolding sell_window_def by (rule four_bars_detector)
  have h3: "(0::nat) \<noteq> nrows sell_window - 1" "nrows sell_window - 1 = 3"
    by (simp_all add: sell_window_def four_bars_def)
  from h1 h2 h3
    auto_trade_writes_last_signal_only [of long_at_1 sell_window 4 100 5 "1 / 10" 0 1]
  show ?thesis by simp
qed

lemma act_on_signal_stale:
  assumes "sg = Some 0 \<or> sg = Some 2"
  shows "act_on_signal m sg False =
     (if current_trade m = [] then m
      else if (sg = Some 0 \<and> type (last (current_trade m)) = buy) \<or>
              (sg = Some 2 \<and> type (last (current_trade m)) = sell) then m
      else close_trade m)"
  using assms by (auto simp add: act_on_signal_def Let_def)

lemma close_trade_slot: "current_trade (close_trade m) = current_trade m \<or>
    current_trade (close_trade m) = []"
  using close_trade_cases [of m] by auto

text \<open>
  C2, as the code has it: when the selected signal is stale (its distance from the last
  index exceeds \<open>furthest_index\<close>), no position is opened. With no open position, or with
  an open position on the signal's side, positions and ledger are unchanged. An open
  position on the other side goes through \<open>close_trade\<close>: the recency test guards only
  the opening.
\<close>

theorem stale_signal_opens_nothing:
  assumes "\<not> empty df"
    and "find_peaks_and_valleys df peaks_distance peaks_prominence True = Inr (Scalar s)"
    and "select_signal (set_data m df) (set_last_signal df s) = Inr (Some (signal_index, sg))"
    and "int (nrows df - 1) - int signal_index > furthest_index"
  shows "(current_trade m = [] \<longrightarrow>
           fst (auto_trade m df current_datetime furthest_index peaks_distance
             peaks_prominence) = set_data m df) \<and>
         (current_trade m \<noteq> [] \<and>
            ((sg = Some 0 \<and> type (last (current_trade m)) = buy) \<or>
             (sg = Some 2 \<and> type (last (current_trade m)) = sell)) \<longrightarrow>
           fst (auto_trade m df current_datetime furthest_index peaks_distance
             peaks_prominence) = set_data m df) \<and>
         (current_trade m \<noteq> [] \<and>
            \<not> ((sg = Some 0 \<and> type (last (current_trade m)) = buy) \<or>
               (sg = Some 2 \<and> type (last (current_trade m)) = sell)) \<longrightarrow>
           fst (auto_trade m df current_datetime furthest_index peaks_distance
             peaks_prominence) = close_trade (set_data m df)) \<and>
         (current_trade (fst (auto_trade m df current_datetime furthest_index peaks_distance
             peaks_prominence)) = current_trade m \<or>
          current_trade (fst (auto_trade m df current_datetime furthest_index peaks_distance
             peaks_prominence)) = [])"
proof -
  let ?m = "set_data m df"
  obtain time_col where "Time (set_last_signal df s) = Some time_col"
    using assms(3) by (cases "Time (set_last_signal df s)") (simp_all add: select_signal_def)
  with assms(3) have v: "sg = Some 0 \<or> sg = Some 2"
    using select_signal_some by blast
  from assms(4) have "\<not> int (nrows df - 1) - int signal_index \<le> furthest_index" by simp
  with auto_trade_run [OF assms(1) assms(2) assms(3), of current_datetime furthest_index]
  have "fst (auto_trade m df current_datetime furthest_index peaks_distance
      peaks_prominence) = act_on_signal ?m sg False"
    by simp
  with act_on_signal_stale [OF v, of ?m]
  have r: "fst (auto_trade m df current_datetime furthest_index peaks_distance
      peaks_prominence) =
     (if current_trade ?m = [] then ?m
      else if (sg = Some 0 \<and> type (last (current_trade ?m)) = buy) \<or>
              (sg = Some 2 \<and> type (last (current_trade ?m)) = sell) then ?m
      else close_trade ?m)"
    by simp
  have c: "current_trade ?m = current_trade m" by (simp add: set_data_def)
  from close_trade_slot [of ?m] c
  have "current_trade (close_trade ?m) = current_trade m \<or> current_trade (close_trade ?m) = []"
    by simp
  with r c show ?thesis by auto
qed

text \<open>
  C2 as stated fails: a Long is open, the selected Sell is stale, and the call closes the
  Long and appends it to the ledger.
\<close>

theorem stale_signal_counterexample:
  "select_signal (set_data long_at_1 sell_window) (set_last_signal sell_window 1)
     = Inr (Some (1, Some 2)) \<and>
   int (nrows sell_window - 1) - int 1 > 1 \<and>
   current_trade long_at_1 \<noteq> [] \<and>
   current_trade (fst (auto_trade long_at_1 sell_window 4 1 5 (1 / 10))) = [] \<and>
   length (trades (fst (auto_trade long_at_1 sell_window 4 1 5 (1 / 10))))
     = length (trades long_at_1) + 1"
proof -
  have w: "\<not> empty sell_window" unfolding sell_window_def using four_bars_wf by blast
  have d: "find_peaks_and_valleys sell_window 5 (1 / 10) True = Inr (Scalar 1)"
    unfolding sell_window_def by (rule four_bars_detector)
  have n: "int (nrows sell_window - 1) - int 1 > 1"
    by (simp add: sell_window_def four_bars_def)
  have nr: "nrows sell_window = 4" by (simp add: sell_window_def four_bars_def)
  have "fst (auto_trade long_at_1 sell_window 4 1 5 (1 / 10))
      = act_on_signal (set_data long_at_1 sell_window) (Some 2) False"
    using auto_trade_run [OF w d sell_window_select, of 4 1] by (simp add: nr)
  also have "\<dots> = close_trade (set_data long_at_1 sell_window)"
    by (simp add: act_on_signal_def long_at_1_eq set_data_def)
  finally have "fst (auto_trade long_at_1 sell_window 4 1 5 (1 / 10))
      = close_trade (set_data long_at_1 sell_window)" .
  moreover have "current_trade (close_trade (set_data long_at_1 sell_window)) = []"
    "length (trades (close_trade (set_data long_at_1 sell_window))) = 1"
    using sell_window_price
    by (simp_all add: close_trade_def long_at_1_eq set_data_def Let_def)
  ultimately show ?thesis using sell_window_select n
    by (simp add: long_at_1_eq)
qed

theorem stale_signal_opens_nothing_witness:
  "\<not> empty sell_window \<and>
   find_peaks_and_valleys sell_window 5 (1 / 10) True = Inr (Scalar 1) \<and>
   select_signal (set_data long_at_1 sell_window) (set_last_signal sell_window 1)
     = Inr (Some (1, Some 2)) \<and>
   int (nrows sell_window - 1) - int 1 > 1 \<and>
   fst (auto_trade long_at_1 sell_window 4 1 5 (1 / 10))
     = close_trade (set_data long_at_1 sell_window)"
proof -
  have w: "\<not> empty sell_window" unfolding sell_window_def using four_bars_wf by blast
  have d: "find_peaks_and_valleys sell_window 5 (1 / 10) True = Inr (Scalar 1)"
    unfolding sell_window_def by (rule four_bars_detector)
  have n: "int (nrows sell_window - 1) - int 1 > 1"
    by (simp add: sell_window_def four_bars_def)
  have t: "current_trade long_at_1 \<noteq> []" "type (last (current_trade long_at_1)) = buy"
    by (simp_all add: long_at_1_eq)
  from stale_signal_opens_nothing [OF w d sell_window_select n, of 4] t
  have "fst (auto_trade long_at_1 sell_window 4 1 5 (1 / 10))
     = close_trade (set_data long_at_1 sell_window)" by simp
  with w d n sell_window_select show ?thesis by simp
qed

lemma closed_long_eq:
  "closed_long = \<lparr>trades = [\<lparr>type = buy, entry_date = Some 1,
       entry_price = 125 / 100, status = status_closed, exit_date = Some 4,
       exit_price = Some (126 / 100), profit = Some (1 / 100)\<rparr>], current_trade = [],
       current_date = Some 4, data = Some buy_window\<rparr>"
  by (simp add: closed_long_def long_at_1_eq close_trade_def get_close_price_def
      buy_window_def four_bars_def Let_def)

text \<open>
  C7: a Long is open, the detector ran, the selected signal is a recent Sell and the window
  has a close price for the model's current date. Then \<open>auto_trade\<close> appends exactly the
  closed Long to the ledger, with profit exit minus entry, and the live slot holds a new
  Short entered at that same close price.
\<close>

theorem flip_long_to_short:
  assumes "current_trade m = [t]" and "type t = buy" and "status t = status_open"
    and "\<not> empty df"
    and "find_peaks_and_valleys df peaks_distance peaks_prominence True = Inr (Scalar s)"
    and "select_signal (set_data m df) (set_last_signal df s)
           = Inr (Some (signal_index, Some 2))"
    and "int (nrows df - 1) - int signal_index \<le> furthest_index"
    and "get_close_price (set_data m df) (current_date m) = Inr (Some p)"
  shows "trades (fst (auto_trade m df current_datetime furthest_index peaks_distance
           peaks_prominence))
         = trades m @ [t\<lparr>status := status_closed, exit_date := current_date m,
             exit_price := Some p, profit := Some (p - entry_price t)\<rparr>] \<and>
         current_trade (fst (auto_trade m df current_datetime furthest_index peaks_distance
           peaks_prominence))
         = [\<lparr>type = sell, entry_date = current_date m, entry_price = p,
             status = status_open, exit_date = None, exit_price = None, profit = None\<rparr>]"
proof -
  let ?m = "set_data m df"
  let ?row = "t\<lparr>status := status_closed, exit_date := current_date m,
             exit_price := Some p, profit := Some (p - entry_price t)\<rparr>"
  have ct: "current_trade ?m = [t]" and cd: "current_date ?m = current_date m"
    and tr: "trades ?m = trades m"
    using assms(1) by (simp_all add: set_data_def)
  from assms(8) cd have pr: "get_close_price ?m (current_date ?m) = Inr (Some p)" by simp
  from ct assms(2) assms(3) pr
  have c: "close_trade ?m = ?m\<lparr>trades := trades ?m @ [?row], current_trade := []\<rparr>"
    by (simp add: close_trade_def Let_def cd)
  let ?m1 = "close_trade ?m"
  have e: "current_trade ?m1 = []" by (simp add: c)
  from pr have "get_close_price ?m1 (current_date ?m1) = Inr (Some p)" by simp
  with e have o: "sell_trade ?m1 = ?m1\<lparr>current_trade := [new_trade sell ?m1 p]\<rparr>"
    by (simp add: sell_trade_def open_trade_def Let_def)
  from assms(7) auto_trade_run [OF assms(4) assms(5) assms(6), of current_datetime
      furthest_index]
  have "fst (auto_trade m df current_datetime furthest_index peaks_distance
           peaks_prominence) = act_on_signal ?m (Some 2) True"
    by simp
  also have "\<dots> = sell_trade ?m1"
    using ct assms(2) by (simp add: act_on_signal_def Let_def)
  finally have "fst (auto_trade m df current_datetime furthest_index peaks_distance
           peaks_prominence) = ?m1\<lparr>current_trade := [new_trade sell ?m1 p]\<rparr>"
    using o by simp
  then show ?thesis by (simp add: c tr cd new_trade_def)
qed

theorem flip_long_to_short_witness:
  "current_trade long_at_1 = [\<lparr>type = buy, entry_date = Some 1, entry_price = 125 / 100,
      status = status_open, exit_date = None, exit_price = None, profit = None\<rparr>] \<and>
   \<not> empty sell_window \<and>
   find_peaks_and_valleys sell_window 5 (1 / 10) True = Inr (Scalar 1) \<and>
   select_signal (set_data long_at_1 sell_window) (set_last_signal sell_window 1)
     = Inr (Some (1, Some 2)) \<and>
   int (nrows sell_window - 1) - int 1 \<le> 100 \<and>
   get_close_price (set_data long_at_1 sell_window) (current_date long_at_1)
     = Inr (Some (126 / 100)) \<and>
   trades (fst (auto_trade long_at_1 sell_window 4 100 5 (1 / 10)))
     = [\<lparr>type = buy, entry_date = Some 1, entry_price = 125 / 100,
         status = status_closed, exit_date = Some 4, exit_price = Some (126 / 100),
         profit = Some (1 / 100)\<rparr>] \<and>
   current_trade (fst (auto_trade long_at_1 sell_window 4 100 5 (1 / 10)))
     = [\<lparr>type = sell, entry_date = Some 4, entry_price = 126 / 100,
         status = status_open, exit_date = None, exit_price = None, profit = None\<rparr>]"
proof -
  let ?t = "\<lparr>type = buy, entry_date = Some 1, entry_price = 125 / 100,
      status = status_open, exit_date = None, exit_price = None, profit = None\<rparr>"
  have h1: "current_trade long_at_1 = [?t]" by (simp add: long_at_1_eq)
  have h2: "type ?t = buy" and h3: "status ?t = status_open" by simp_all
  have h4: "\<not> empty sell_window" unfolding sell_window_def using four_bars_wf by blast
  have h5: "find_peaks_and_valleys sell_window 5 (1 / 10) True = Inr (Scalar 1)"
    unfolding sell_window_def by (rule four_bars_detector)
  have h7: "int (nrows sell_window - 1) - int 1 \<le> 100"
    by (simp add: sell_window_def four_bars_def)
  from flip_long_to_short [OF h1 h2 h3 h4 h5 sell_window_select h7 sell_window_price, of 4]
    h1 h4 h5 h7 sell_window_select sell_window_price
  show ?thesis by (simp add: long_at_1_eq)
qed

text \<open>
  C1, as the code has it: \<open>latest_trade_date\<close> is the entry date of the row in the live
  slot, and none when the slot is empty, whatever the ledger holds. The candidate rows are
  exactly those with Time strictly after it (when there is one) and at or before the
  Time of the window's last row; the row \<open>auto_trade\<close> selects is one of them.
\<close>

theorem last_trade_time_is_open_entry:
  "(current_trade m = [] \<longrightarrow> latest_trade_date m = None) \<and>
   (current_trade m \<noteq> [] \<longrightarrow> latest_trade_date m = entry_date (last (current_trade m))) \<and>
   set (signals_since_last_trade time_col (latest_trade_date m) current_date_v)
     = {i. i < length time_col \<and> time_col ! i \<le> current_date_v \<and>
          (\<forall>d. latest_trade_date m = Some d \<longrightarrow> d < time_col ! i)} \<and>
   (Time df = Some time_col \<and> select_signal m df = Inr (Some (signal_index, sg)) \<longrightarrow>
      signal_index < length time_col \<and> time_col ! signal_index \<le> last time_col \<and>
      (\<forall>d. latest_trade_date m = Some d \<longrightarrow> d < time_col ! signal_index))"
proof (intro conjI impI)
  show "set (signals_since_last_trade time_col (latest_trade_date m) current_date_v)
     = {i. i < length time_col \<and> time_col ! i \<le> current_date_v \<and>
          (\<forall>d. latest_trade_date m = Some d \<longrightarrow> d < time_col ! i)}"
    by (rule set_signals_since_last_trade)
next
  assume a: "Time df = Some time_col \<and> select_signal m df = Inr (Some (signal_index, sg))"
  then have "signal_index \<in>
      set (signals_since_last_trade time_col (latest_trade_date m) (last time_col))"
    using select_signal_some by blast
  then have b: "signal_index < length time_col \<and> time_col ! signal_index \<le> last time_col \<and>
      (\<forall>d. latest_trade_date m = Some d \<longrightarrow> d < time_col ! signal_index)"
    by (simp add: set_signals_since_last_trade)
  from b show "signal_index < length time_col" by simp
  from b show "time_col ! signal_index \<le> last time_col" by simp
  from b show "\<forall>d. latest_trade_date m = Some d \<longrightarrow> d < time_col ! signal_index" by simp
qed (simp_all add: latest_trade_date_def)

text \<open>
  C1 as stated fails: the last trade ever opened was entered at time 1 and is closed; the
  boundary is none, the bar at time 1 is selected again and a new Long is opened on it.
\<close>

theorem last_trade_time_counterexample:
  "entry_date (last (trades closed_long)) = Some 1 \<and>
   latest_trade_date closed_long = None \<and>
   select_signal (set_data closed_long buy_window) (set_last_signal buy_window 1)
     = Inr (Some (0, Some 0)) \<and>
   current_trade (fst (auto_trade closed_long buy_window 4 100 5 (1 / 10)))
     = [\<lparr>type = buy, entry_date = Some 4, entry_price = 126 / 100,
         status = status_open, exit_date = None, exit_price = None, profit = None\<rparr>]"
proof -
  have w: "\<not> empty buy_window" unfolding buy_window_def using four_bars_wf by blast
  have d: "find_peaks_and_valleys buy_window 5 (1 / 10) True = Inr (Scalar 1)"
    unfolding buy_window_def by (rule four_bars_detector)
  have sel: "select_signal (set_data closed_long buy_window) (set_last_signal buy_window 1)
     = Inr (Some (0, Some 0))"
    by (simp add: closed_long_eq select_signal_def set_data_def set_last_signal_def
      buy_window_def four_bars_def latest_trade_date_def signals_since_last_trade_def
      valid_signals_def upt_rec Let_def)
  have nr: "nrows buy_window = 4" by (simp add: buy_window_def four_bars_def)
  have "fst (auto_trade closed_long buy_window 4 100 5 (1 / 10))
      = act_on_signal (set_data closed_long buy_window) (Some 0) True"
    using auto_trade_run [OF w d sel, of 4 100] by (simp add: nr)
  also have "\<dots> = buy_trade (set_data closed_long buy_window)"
    by (simp add: act_on_signal_def closed_long_eq set_data_def)
  finally have "current_trade (fst (auto_trade closed_long buy_window 4 100 5 (1 / 10)))
     = current_trade (buy_trade (set_data closed_long buy_window))" by simp
  also have "\<dots> = [\<lparr>type = buy, entry_date = Some 4, entry_price = 126 / 100,
         status = status_open, exit_date = None, exit_price = None, profit = None\<rparr>]"
    by (simp add: buy_trade_def open_trade_def closed_long_eq set_data_def
        get_close_price_def buy_window_def four_bars_def new_trade_def)
  finally show ?thesis using sel
    by (simp add: closed_long_eq latest_trade_date_def)
qed

theorem last_trade_time_is_open_entry_witness:
  "current_trade long_at_1 \<noteq> [] \<and> latest_trade_date long_at_1 = Some 1 \<and>
   current_trade closed_long = [] \<and> latest_trade_date closed_long = None \<and>
   Time (set_last_signal sell_window 1) = Some [1, 2, 3, 4] \<and>
   select_signal (set_data long_at_1 sell_window) (set_last_signal sell_window 1)
     = Inr (Some (1, Some 2)) \<and>
   (1::nat) < [1, 2, 3, 4::nat] ! 1"
proof -
  have h1: "current_trade long_at_1 \<noteq> []" by (simp add: long_at_1_eq)
  have h2: "current_trade closed_long = []" by (simp add: closed_long_eq)
  have h3: "Time (set_last_signal sell_window 1) = Some [1, 2, 3, 4]"
    by (simp add: sell_window_def four_bars_def)
  have l: "latest_trade_date (set_data long_at_1 sell_window) = Some 1"
    by (simp add: latest_trade_date_def long_at_1_eq set_data_def)
  from last_trade_time_is_open_entry [of long_at_1] h1
  have a: "latest_trade_date long_at_1 = Some 1" by (simp add: long_at_1_eq)
  from last_trade_time_is_open_entry [of closed_long] h2
  have b: "latest_trade_date closed_long = None" by simp
  from last_trade_time_is_open_entry [of "set_data long_at_1 sell_window" "[1, 2, 3, 4]" 4
      "set_last_signal sell_window 1" 1 "Some 2"] h3 sell_window_select l
  have c: "(1::nat) < [1, 2, 3, 4::nat] ! 1" by simp
  from h1 h2 h3 a b c sell_window_select show ?thesis by simp
qed

end
